theory Spec2Isabelle
  imports Main
begin

section \<open>The outside world of DevOps\_Robot.py\<close>

text \<open>
  The robot talks to three kinds of collaborators: HTTP endpoints (through the
  \<^verbatim>\<open>requests\<close> library), the git executable (through \<^verbatim>\<open>subprocess.run\<close>) and the
  local file system. Every effect the source performs is recorded as an event; a
  function of the model takes the history of events so far and returns the events it
  adds, together with its Python result. What the collaborators answer is given by a
  \<open>world\<close>, which may consult the whole history, so that the same request can be
  answered differently at different moments.

  A git command fails by its return code (the \<^verbatim>\<open>CalledProcessError\<close> of
  \<^verbatim>\<open>check=True\<close>), a request by a \<^verbatim>\<open>requests.RequestException\<close>, and the
  creation of a directory or the writing of a file by an \<^verbatim>\<open>OSError\<close>. The git
  executable is taken to be installed. Strings are the UTF-8 bytes of Python's strings.
\<close>

datatype http_method = GET | POST | PUT

text \<open>
  The arguments of a \<^verbatim>\<open>requests.get/post/put\<close> call. \<open>timeout\<close> is the keyword
  argument of that name (\<open>None\<close> when the call does not pass it, in which case
  \<^verbatim>\<open>requests\<close> waits without bound). JSON payloads are left out.
\<close>

record http_request =
  meth :: http_method
  url :: string
  headers :: "(string \<times> string) list"
  timeout :: "nat option"

text \<open>
  A response: its status code and the parts of the JSON body that the code reads,
  each as the endpoint concerned returns it: the \<^verbatim>\<open>name\<close> of each entry of a content
  listing, the \<^verbatim>\<open>default_branch\<close> of a repository descriptor, the
  \<^verbatim>\<open>workflow_runs\<close> of a run listing, the entries of a repository listing and the
  files of a pull request.
\<close>

record workflow_run =
  run_status :: string
  run_conclusion :: string
  run_updated_at :: string

record repo_entry =
  repo_name_of :: string
  repo_updated_at :: string
  open_issues_count :: nat
  repo_private :: bool
  repo_default_branch :: string

record pr_file =
  filename :: string
  patch :: string               \<comment> \<open>empty when absent or null\<close>
  additions :: nat              \<comment> \<open>0 when absent\<close>

record response =
  status_code :: nat
  entry_names :: "string list"
  json_default_branch :: "string option"
  workflow_runs :: "workflow_run list"
  repo_entries :: "repo_entry list"
  pr_files :: "pr_file list"

text \<open>
  \<^verbatim>\<open>requests\<close> either returns a response or raises a
  \<^verbatim>\<open>requests.RequestException\<close> (connection error, timeout, malformed URL).
\<close>

datatype http_outcome = Response response | TransportError

datatype commit_msg =
    AutoUpdate nat       \<comment> \<open>"Auto-update: n files updated"\<close>
  | AutoCommit string    \<comment> \<open>"Auto-commit: Updated files at <timestamp>"\<close>
  | Custom string

text \<open>The fixed argument lists with which the source invokes git.\<close>

datatype git_cmd =
    Clone string string         \<comment> \<open>git clone url path\<close>
  | ConfigGet string            \<comment> \<open>git config key\<close>
  | ConfigSet string string     \<comment> \<open>git config key value\<close>
  | RevParseHead                \<comment> \<open>git rev-parse --abbrev-ref HEAD\<close>
  | Add string                  \<comment> \<open>git add path\<close>
  | Commit commit_msg           \<comment> \<open>git commit -m message\<close>
  | Push string string          \<comment> \<open>git push remote branch\<close>

record proc_result =
  returncode :: nat
  stdout :: string

text \<open>The exceptions the source raises itself or lets through.\<close>

datatype exn = ValueError | RequestException | OSError

text \<open>One constructor for each \<^verbatim>\<open>print\<close> statement of the source.\<close>

datatype message =
    VercelNotEnabled | VercelMissingHook | VercelTriggered
  | VercelFailed response | VercelRequestError
  | RenderNotEnabled | RenderTokenNotSet | RenderMissingServiceId
  | RenderTriggered | RenderFailed response
  | NetlifyNotEnabled | NetlifyTriggered | NetlifyFailed response
  | NetlifyRequestError | NetlifyMissingHook
  | NoDeploymentsTriggered
  | StartingWorkflow string | UpdatedFile string
  | Cloned string | CloneFailed string
  | GitIdentityWarning | CommittedAndPushed string commit_msg | GitOperationFailed
  | AnalyzeFailed response | Improved string nat | NoImprovementsNeeded
  | Processing string | UnknownOperation string
  | RepoCreated string | CreateRepoFailed response
  | PullRequestCreated | CreatePullRequestFailed response
  | PullRequestMerged nat | MergePullRequestFailed response
  | HealthCheckSkipped | ListReposFailed response
  | PullRequestFilesFailed response

text \<open>
  The content of a file to write: a text given by the caller, or one of the three
  templates of the generators (whose text is not spelled out here).
\<close>

datatype content =
    Text string
  | ReadmeTemplate string
  | GitignoreTemplate
  | DeployWorkflowTemplate "string list"

datatype event =
    Print message
  | Http http_request
  | Git git_cmd string          \<comment> \<open>the command and its working directory\<close>
  | MakeDirs string
  | WriteFile string content
  | Sleep

text \<open>
  \<open>makedirs_ok\<close> and \<open>write_ok\<close> say whether \<^verbatim>\<open>os.makedirs(path, exist_ok=True)\<close> and
  the opening and writing of a file succeed; otherwise they raise an \<^verbatim>\<open>OSError\<close>.
\<close>

record world =
  http :: "event list \<Rightarrow> http_request \<Rightarrow> http_outcome"
  run :: "event list \<Rightarrow> git_cmd \<Rightarrow> string \<Rightarrow> proc_result"
  path_exists :: "event list \<Rightarrow> string \<Rightarrow> bool"
  makedirs_ok :: "event list \<Rightarrow> string \<Rightarrow> bool"
  write_ok :: "event list \<Rightarrow> string \<Rightarrow> content \<Rightarrow> bool"
  render_token :: string        \<comment> \<open>os.getenv("RENDER\_TOKEN"), empty when unset\<close>
  timestamp :: "event list \<Rightarrow> string"

section \<open>Configuration and identity\<close>

text \<open>
  One block of \<^verbatim>\<open>hosting_platforms\<close>. \<open>enabled\<close> is the truth value of
  \<^verbatim>\<open>cfg.get("enabled")\<close>; an absent or empty string field is the empty string (both
  are falsy in the source).
\<close>

record platform_cfg =
  enabled :: bool
  deploy_hook_url :: string
  service_id :: string

text \<open>
  The robot object: \<^verbatim>\<open>self.github_token\<close> (empty when there is none),
  \<^verbatim>\<open>self.github_username\<close> and the keys of \<^verbatim>\<open>self.config\<close> that the code reads.
  \<open>auto_deploy\<close> is \<open>None\<close> when the key is unspecified.
\<close>

record robot =
  github_token :: string
  github_username :: string
  default_branch :: "string option"
  auto_deploy :: "bool option"
  hosting_platforms :: "string \<rightharpoonup> platform_cfg"

text \<open>\<^verbatim>\<open>self.config.get("hosting_platforms", {}).get(name, {})\<close>\<close>

definition platform :: "robot \<Rightarrow> string \<Rightarrow> platform_cfg" where
  "platform r name =
     (case hosting_platforms r name of
        None \<Rightarrow> \<lparr>enabled = False, deploy_hook_url = [], service_id = []\<rparr>
      | Some cfg \<Rightarrow> cfg)"

definition base_headers :: "robot \<Rightarrow> (string \<times> string) list" where
  "base_headers r =
     [(''Authorization'', if github_token r \<noteq> [] then ''token '' @ github_token r else []),
      (''Accept'', ''application/vnd.github.v3+json'')]"

definition accepted :: "response \<Rightarrow> bool" where
  "accepted res = (status_code res \<in> {200, 201, 202})"

section \<open>Deployment (hooks first)\<close>

definition deploy_to_vercel ::
  "world \<Rightarrow> robot \<Rightarrow> string \<Rightarrow> event list \<Rightarrow> event list \<times> (exn + bool)" where
  "deploy_to_vercel w r repo_name h =
     (let cfg = platform r ''vercel'' in
      if \<not> enabled cfg then ([Print VercelNotEnabled], Inr False)
      else let hook = deploy_hook_url cfg in
        if hook = [] then ([Print VercelMissingHook], Inr False)
        else let rq = \<lparr>meth = POST, url = hook, headers = [], timeout = None\<rparr> in
          (case http w h rq of
             Response res \<Rightarrow>
               if accepted res then ([Http rq, Print VercelTriggered], Inr True)
               else ([Http rq, Print (VercelFailed res)], Inr False)
           | TransportError \<Rightarrow> ([Http rq, Print VercelRequestError], Inr False)))"

definition deploy_to_render ::
  "world \<Rightarrow> robot \<Rightarrow> string \<Rightarrow> event list \<Rightarrow> event list \<times> (exn + bool)" where
  "deploy_to_render w r service_id_arg h =
     (let cfg = platform r ''render'' in
      if \<not> enabled cfg then ([Print RenderNotEnabled], Inr False)
      else if render_token w = [] then ([Print RenderTokenNotSet], Inr False)
      else let sid = (if service_id_arg \<noteq> [] then service_id_arg else service_id cfg) in
        if sid = [] then ([Print RenderMissingServiceId], Inr False)
        else let rq = \<lparr>meth = POST,
                        url = ''https://api.render.com/v1/services/'' @ sid @ ''/deploys'',
                        headers = [(''Authorization'', ''Bearer '' @ render_token w),
                                   (''Content-Type'', ''application/json'')],
                        timeout = None\<rparr> in
          (case http w h rq of
             Response res \<Rightarrow>
               if accepted res then ([Http rq, Print RenderTriggered], Inr True)
               else ([Http rq, Print (RenderFailed res)], Inr False)
           | TransportError \<Rightarrow> ([Http rq], Inl RequestException)))"

definition deploy_to_netlify ::
  "world \<Rightarrow> robot \<Rightarrow> event list \<Rightarrow> event list \<times> (exn + bool)" where
  "deploy_to_netlify w r h =
     (let cfg = platform r ''netlify'' in
      if \<not> enabled cfg then ([Print NetlifyNotEnabled], Inr False)
      else let hook = deploy_hook_url cfg in
        if hook \<noteq> [] then
          (let rq = \<lparr>meth = POST, url = hook, headers = [], timeout = None\<rparr> in
           case http w h rq of
             Response res \<Rightarrow>
               if accepted res then ([Http rq, Print NetlifyTriggered], Inr True)
               else ([Http rq, Print (NetlifyFailed res)], Inr False)
           | TransportError \<Rightarrow> ([Http rq, Print NetlifyRequestError], Inr False))
        else ([Print NetlifyMissingHook], Inr False))"

text \<open>
  One statement of the fan-out,
  \<^verbatim>\<open>if platforms.get(p, {}).get("enabled"): ok_any = adapter(...) or ok_any\<close>:
  the events it adds and the new value of \<^verbatim>\<open>ok_any\<close>, or the exception of the adapter.
\<close>

definition attempt ::
  "bool \<Rightarrow> (event list \<Rightarrow> event list \<times> (exn + bool)) \<Rightarrow> event list \<Rightarrow> bool
     \<Rightarrow> event list \<times> (exn + bool)" where
  "attempt on adapter h ok_any =
     (if on then (case adapter h of
                    (e, Inl x) \<Rightarrow> (e, Inl x)
                  | (e, Inr b) \<Rightarrow> (e, Inr (b \<or> ok_any)))
      else ([], Inr ok_any))"

text \<open>
  \<^verbatim>\<open>trigger_all_deployments\<close> has no \<^verbatim>\<open>return\<close> statement: when it finishes, its
  value is Python's \<^verbatim>\<open>None\<close>, modelled as \<open>None :: bool option\<close>. An exception of an
  adapter ends the function at once.
\<close>

definition trigger_all_deployments ::
  "world \<Rightarrow> robot \<Rightarrow> string \<Rightarrow> event list \<Rightarrow> event list \<times> (exn + bool option)" where
  "trigger_all_deployments w r repo_name h =
     (let platforms = platform r in
      case attempt (enabled (platforms ''vercel'')) (deploy_to_vercel w r repo_name) h False of
        (e1, Inl x) \<Rightarrow> (e1, Inl x)
      | (e1, Inr ok_any1) \<Rightarrow>
         (case attempt (enabled (platforms ''render''))
                 (deploy_to_render w r (service_id (platforms ''render''))) (h @ e1) ok_any1 of
            (e2, Inl x) \<Rightarrow> (e1 @ e2, Inl x)
          | (e2, Inr ok_any2) \<Rightarrow>
             (case attempt (enabled (platforms ''netlify''))
                     (deploy_to_netlify w r) (h @ e1 @ e2) ok_any2 of
                (e3, Inl x) \<Rightarrow> (e1 @ e2 @ e3, Inl x)
              | (e3, Inr ok_any) \<Rightarrow>
                  if \<not> ok_any then (e1 @ e2 @ e3 @ [Print NoDeploymentsTriggered], Inr None)
                  else (e1 @ e2 @ e3, Inr None))))"

section \<open>Strings and paths\<close>

text \<open>
  A string is the list of the UTF-8 bytes of a Python string. \<open>utf8_chars\<close> cuts it
  into its characters: a byte from 0x80 to 0xBF continues the character begun before.
\<close>

definition is_continuation :: "char \<Rightarrow> bool" where
  "is_continuation c = (let n = (of_char c :: nat) in 128 \<le> n \<and> n < 192)"

definition group_byte :: "char \<Rightarrow> string list \<Rightarrow> string list" where
  "group_byte c chs =
     (case chs of
        (d # ds) # rest \<Rightarrow> if is_continuation d then (c # d # ds) # rest else [c] # chs
      | _ \<Rightarrow> [c] # chs)"

definition utf8_chars :: "string \<Rightarrow> string list" where
  "utf8_chars s = foldr group_byte s []"

text \<open>
  The white space of Python's \<^verbatim>\<open>str.strip\<close> and \<^verbatim>\<open>str.isspace\<close>: U+0009 to U+000D,
  U+001C to U+0020, U+0085, U+00A0, U+1680, U+2000 to U+200A, U+2028, U+2029, U+202F,
  U+205F and U+3000.
\<close>

definition is_space :: "string \<Rightarrow> bool" where
  "is_space ch =
     (case map of_char ch of
        [b0] \<Rightarrow> (9 \<le> b0 \<and> b0 \<le> 13) \<or> (28 \<le> b0 \<and> b0 \<le> (32::nat))
      | [b0, b1] \<Rightarrow> b0 = 0xC2 \<and> (b1 = 0x85 \<or> b1 = 0xA0)
      | [b0, b1, b2] \<Rightarrow>
          (b0 = 0xE1 \<and> b1 = 0x9A \<and> b2 = 0x80)
          \<or> (b0 = 0xE2 \<and> b1 = 0x80 \<and> ((0x80 \<le> b2 \<and> b2 \<le> 0x8A) \<or> b2 = 0xA8 \<or> b2 = 0xA9 \<or> b2 = 0xAF))
          \<or> (b0 = 0xE2 \<and> b1 = 0x81 \<and> b2 = 0x9F)
          \<or> (b0 = 0xE3 \<and> b1 = 0x80 \<and> b2 = 0x80)
      | _ \<Rightarrow> False)"

definition strip :: "string \<Rightarrow> string" where
  "strip s = concat (rev (dropWhile is_space (rev (dropWhile is_space (utf8_chars s)))))"

text \<open>
  \<^verbatim>\<open>str.lower\<close>, character by character: an ASCII capital becomes its small letter,
  U+212A (Kelvin sign) becomes \<^verbatim>\<open>k\<close> and U+0130 becomes \<^verbatim>\<open>i\<close> followed by U+0307.
  These are the only characters whose lower case contains an ASCII letter. Python maps
  the other characters outside ASCII to characters outside ASCII; they are kept as they
  are, which the comparisons of \<^verbatim>\<open>analyze_repository\<close> with the ASCII words
  \<^verbatim>\<open>readme\<close> and \<^verbatim>\<open>dockerfile\<close> cannot tell apart.
\<close>

definition lower_char :: "string \<Rightarrow> string" where
  "lower_char ch =
     (case map of_char ch of
        [b0] \<Rightarrow> if 65 \<le> b0 \<and> b0 \<le> (90::nat) then [char_of (b0 + 32)] else ch
      | [b0, b1] \<Rightarrow> if b0 = 0xC4 \<and> b1 = 0xB0 then [CHR ''i'', CHR 0xCC, CHR 0x87] else ch
      | [b0, b1, b2] \<Rightarrow> if b0 = 0xE2 \<and> b1 = 0x84 \<and> b2 = 0xAA then [CHR ''k''] else ch
      | _ \<Rightarrow> ch)"

definition lower :: "string \<Rightarrow> string" where
  "lower s = concat (map lower_char (utf8_chars s))"

definition startswith :: "string \<Rightarrow> string \<Rightarrow> bool" where
  "startswith s p = (take (length p) s = p)"

text \<open>The decimal digits of a number, as an f-string prints it.\<close>

fun str_nat :: "nat \<Rightarrow> string" where
  "str_nat n =
     (if n < 10 then [char_of (48 + n)] else str_nat (n div 10) @ [char_of (48 + n mod 10)])"

declare str_nat.simps [simp del]

definition endswith :: "string \<Rightarrow> string \<Rightarrow> bool" where
  "endswith s p = (length p \<le> length s \<and> drop (length s - length p) s = p)"

text \<open>\<^verbatim>\<open>p in s\<close> on strings.\<close>

fun contains :: "string \<Rightarrow> string \<Rightarrow> bool" where
  "contains [] p = (p = [])"
| "contains (c # cs) p = (startswith (c # cs) p \<or> contains cs p)"

text \<open>\<^verbatim>\<open>os.path.join\<close> of two components and \<^verbatim>\<open>os.path.dirname\<close> (POSIX).\<close>

definition path_join :: "string \<Rightarrow> string \<Rightarrow> string" where
  "path_join a b =
     (if startswith b ''/'' then b
      else if a = [] \<or> last a = CHR ''/'' then a @ b
      else a @ ''/'' @ b)"

definition dirname :: "string \<Rightarrow> string" where
  "dirname p =
     (let head = rev (dropWhile (\<lambda>c. c \<noteq> CHR ''/'') (rev p)) in
      if head \<noteq> [] \<and> \<not> list_all (\<lambda>c. c = CHR ''/'') head
      then rev (dropWhile (\<lambda>c. c = CHR ''/'') (rev head))
      else head)"

section \<open>Git helpers\<close>

definition ensure_git_identity :: "world \<Rightarrow> robot \<Rightarrow> string \<Rightarrow> event list \<Rightarrow> event list" where
  "ensure_git_identity w r repo_path h =
     (let g1 = ConfigGet ''user.name'';
          name = run w h g1 repo_path;
          g2 = ConfigGet ''user.email'';
          email = run w (h @ [Git g1 repo_path]) g2 repo_path;
          e2 = [Git g1 repo_path, Git g2 repo_path];
          g3 = ConfigSet ''user.name'' ''AI DevOps Robot'';
          e3 = (if strip (stdout name) = [] then [Git g3 repo_path] else []) in
      if strip (stdout name) = [] \<and> returncode (run w (h @ e2) g3 repo_path) \<noteq> 0
      then e2 @ e3 @ [Print GitIdentityWarning]
      else if strip (stdout email) = [] then
        (let noreply = github_username r @ ''@users.noreply.github.com'';
             g4 = ConfigSet ''user.email'' noreply in
         if returncode (run w (h @ e2 @ e3) g4 repo_path) \<noteq> 0
         then e2 @ e3 @ [Git g4 repo_path, Print GitIdentityWarning]
         else e2 @ e3 @ [Git g4 repo_path])
      else e2 @ e3)"

definition get_default_branch ::
  "world \<Rightarrow> robot \<Rightarrow> string \<Rightarrow> event list \<Rightarrow> event list \<times> (exn + string)" where
  "get_default_branch w r repo_name h =
     (let fallback = (case default_branch r of None \<Rightarrow> ''main'' | Some b \<Rightarrow> b) in
      if github_token r \<noteq> [] then
        (let rq = \<lparr>meth = GET,
                   url = ''https://api.github.com/repos/'' @ github_username r @ ''/'' @ repo_name,
                   headers = base_headers r, timeout = None\<rparr> in
         case http w h rq of
           Response res \<Rightarrow>
             if status_code res = 200
             then ([Http rq], Inr (case json_default_branch res of None \<Rightarrow> ''main'' | Some b \<Rightarrow> b))
             else ([Http rq], Inr fallback)
         | TransportError \<Rightarrow> ([Http rq], Inl RequestException))
      else ([], Inr fallback))"

section \<open>GitHub operations\<close>

text \<open>
  The functions that return the JSON of a response, or \<^verbatim>\<open>{}\<close>, return
  \<open>Some res\<close> for the former and \<open>None\<close> for the latter.
\<close>

definition create_repository ::
  "world \<Rightarrow> robot \<Rightarrow> string \<Rightarrow> event list \<Rightarrow> event list \<times> (exn + response option)" where
  "create_repository w r repo_name h =
     (if github_token r = [] then ([], Inl ValueError)
      else let rq = \<lparr>meth = POST, url = ''https://api.github.com/user/repos'',
                      headers = base_headers r, timeout = None\<rparr> in
        case http w h rq of
          Response res \<Rightarrow>
            if status_code res = 201 then ([Http rq, Print (RepoCreated repo_name)], Inr (Some res))
            else ([Http rq, Print (CreateRepoFailed res)], Inr None)
        | TransportError \<Rightarrow> ([Http rq], Inl RequestException))"

text \<open>
  \<^verbatim>\<open>clone_repository\<close> returns the local path, or the empty string when git exits
  with a non-zero code (\<^verbatim>\<open>CalledProcessError\<close>, caught).
\<close>

definition clone_repository ::
  "world \<Rightarrow> robot \<Rightarrow> string \<Rightarrow> string \<Rightarrow> event list \<Rightarrow> event list \<times> string" where
  "clone_repository w r repo_name local_path_arg h =
     (let local_path = (if local_path_arg = [] then ''./'' @ repo_name else local_path_arg);
          repo_url = ''https://github.com/'' @ github_username r @ ''/'' @ repo_name @ ''.git'';
          g = Clone repo_url local_path in
      if returncode (run w h g []) = 0
      then ([Git g [], Print (Cloned local_path)], local_path)
      else ([Git g [], Print (CloneFailed repo_name)], []))"

text \<open>The loop \<^verbatim>\<open>for file in files: git add file\<close>; it stops at the first failure.\<close>

fun add_files :: "world \<Rightarrow> string \<Rightarrow> string list \<Rightarrow> event list \<Rightarrow> event list \<times> bool" where
  "add_files w repo_path [] h = ([], True)"
| "add_files w repo_path (f # fs) h =
     (if returncode (run w h (Add f) repo_path) \<noteq> 0 then ([Git (Add f) repo_path], False)
      else (case add_files w repo_path fs (h @ [Git (Add f) repo_path]) of
              (es, ok) \<Rightarrow> (Git (Add f) repo_path # es, ok)))"

text \<open>
  \<^verbatim>\<open>commit_and_push\<close> returns nothing and catches every \<^verbatim>\<open>CalledProcessError\<close>: its
  only trace is the events. An absent argument is \<open>None\<close> (message), the empty list
  (files) or the empty string (branch).
\<close>

definition commit_and_push ::
  "world \<Rightarrow> robot \<Rightarrow> string \<Rightarrow> commit_msg option \<Rightarrow> string list \<Rightarrow> string \<Rightarrow> event list
     \<Rightarrow> event list" where
  "commit_and_push w r repo_path message files branch_arg h =
     (let e0 = ensure_git_identity w r repo_path h;
          cur = run w (h @ e0) RevParseHead repo_path;
          e1 = (if branch_arg = [] then [Git RevParseHead repo_path] else []);
          branch = (if branch_arg \<noteq> [] then branch_arg
                    else if returncode cur = 0 \<and> strip (stdout cur) \<noteq> [] then strip (stdout cur)
                    else ''main'');
          h1 = h @ e0 @ e1;
          (e2, added) = (if files \<noteq> [] then add_files w repo_path files h1
                         else ([Git (Add ''.'') repo_path],
                               returncode (run w h1 (Add ''.'') repo_path) = 0)) in
      if \<not> added then e0 @ e1 @ e2 @ [Print GitOperationFailed]
      else let msg = (case message of
                        None \<Rightarrow> AutoCommit (timestamp w (h1 @ e2))
                      | Some (Custom []) \<Rightarrow> AutoCommit (timestamp w (h1 @ e2))
                      | Some m \<Rightarrow> m);
               ec = [Git (Commit msg) repo_path];
               ep = [Git (Push ''origin'' branch) repo_path] in
        if returncode (run w (h1 @ e2) (Commit msg) repo_path) \<noteq> 0
        then e0 @ e1 @ e2 @ ec @ [Print GitOperationFailed]
        else if returncode (run w (h1 @ e2 @ ec) (Push ''origin'' branch) repo_path) \<noteq> 0
        then e0 @ e1 @ e2 @ ec @ ep @ [Print GitOperationFailed]
        else e0 @ e1 @ e2 @ ec @ ep @ [Print (CommittedAndPushed branch msg)])"

definition create_pull_request ::
  "world \<Rightarrow> robot \<Rightarrow> string \<Rightarrow> event list \<Rightarrow> event list \<times> (exn + response option)" where
  "create_pull_request w r repo_name h =
     (if github_token r = [] then ([], Inl ValueError)
      else let rq = \<lparr>meth = POST,
                      url = ''https://api.github.com/repos/'' @ github_username r @ ''/''
                            @ repo_name @ ''/pulls'',
                      headers = base_headers r, timeout = None\<rparr> in
        case http w h rq of
          Response res \<Rightarrow>
            if status_code res = 201 then ([Http rq, Print PullRequestCreated], Inr (Some res))
            else ([Http rq, Print (CreatePullRequestFailed res)], Inr None)
        | TransportError \<Rightarrow> ([Http rq], Inl RequestException))"

definition merge_pull_request ::
  "world \<Rightarrow> robot \<Rightarrow> string \<Rightarrow> nat \<Rightarrow> event list \<Rightarrow> event list \<times> (exn + bool)" where
  "merge_pull_request w r repo_name pr_number h =
     (if github_token r = [] then ([], Inl ValueError)
      else let rq = \<lparr>meth = PUT,
                      url = ''https://api.github.com/repos/'' @ github_username r @ ''/''
                            @ repo_name @ ''/pulls/'' @ str_nat pr_number @ ''/merge'',
                      headers = base_headers r, timeout = None\<rparr> in
        case http w h rq of
          Response res \<Rightarrow>
            if status_code res = 200 then ([Http rq, Print (PullRequestMerged pr_number)], Inr True)
            else ([Http rq, Print (MergePullRequestFailed res)], Inr False)
        | TransportError \<Rightarrow> ([Http rq], Inl RequestException))"

section \<open>Automation\<close>

text \<open>
  A \<^verbatim>\<open>Dict[str, str]\<close> of files is the list of its items in insertion order. The loop
  over the items creates the parent directory and writes the file; it is outside any
  \<^verbatim>\<open>try\<close>, so an \<^verbatim>\<open>OSError\<close> of either step ends the loop and the sequencer. The
  events record the calls made, also the one that fails.
\<close>

fun write_files ::
  "world \<Rightarrow> string \<Rightarrow> (string \<times> content) list \<Rightarrow> event list \<Rightarrow> event list \<times> (exn + unit)" where
  "write_files w repo_path [] h = ([], Inr ())"
| "write_files w repo_path ((file_path, c) # rest) h =
     (let full_path = path_join repo_path file_path;
          d = dirname full_path in
      if \<not> makedirs_ok w h d then ([MakeDirs d], Inl OSError)
      else if \<not> write_ok w (h @ [MakeDirs d]) full_path c
      then ([MakeDirs d, WriteFile full_path c], Inl OSError)
      else (case write_files w repo_path rest
                   (h @ [MakeDirs d, WriteFile full_path c, Print (UpdatedFile file_path)]) of
              (es, x) \<Rightarrow>
                (MakeDirs d # WriteFile full_path c # Print (UpdatedFile file_path) # es, x)))"

definition auto_workflow_update_and_deploy ::
  "world \<Rightarrow> robot \<Rightarrow> string \<Rightarrow> (string \<times> content) list \<Rightarrow> event list
     \<Rightarrow> event list \<times> (exn + bool)" where
  "auto_workflow_update_and_deploy w r repo_name files_to_update h =
     (let e0 = [Print (StartingWorkflow repo_name)];
          (e1, repo_path) = (if \<not> path_exists w (h @ e0) (''./'' @ repo_name)
                             then clone_repository w r repo_name [] (h @ e0)
                             else ([], ''./'' @ repo_name)) in
      if repo_path = [] then (e0 @ e1, Inr False)
      else case write_files w repo_path files_to_update (h @ e0 @ e1) of
        (e2, Inl x) \<Rightarrow> (e0 @ e1 @ e2, Inl x)
      | (e2, Inr _) \<Rightarrow>
          (let commit_msg = AutoUpdate (length files_to_update);
               e3 = commit_and_push w r repo_path (Some commit_msg) [] [] (h @ e0 @ e1 @ e2) in
           if auto_deploy r \<noteq> Some False then
             (case trigger_all_deployments w r repo_name (h @ e0 @ e1 @ e2 @ e3) of
                (e4, Inl x) \<Rightarrow> (e0 @ e1 @ e2 @ e3 @ e4, Inl x)
              | (e4, Inr _) \<Rightarrow> (e0 @ e1 @ e2 @ e3 @ e4, Inr True))
           else (e0 @ e1 @ e2 @ e3, Inr True)))"

section \<open>Repository quality helpers\<close>

record analysis =
  files :: "string list"
  has_readme :: bool
  has_package_json :: bool
  has_dockerfile :: bool
  suggestions :: "string list"

text \<open>\<^verbatim>\<open>analyze_repository\<close> returns the analysis, or \<^verbatim>\<open>{}\<close> (here \<open>None\<close>).\<close>

definition analyze_repository ::
  "world \<Rightarrow> robot \<Rightarrow> string \<Rightarrow> event list \<Rightarrow> event list \<times> (exn + analysis option)" where
  "analyze_repository w r repo_name h =
     (let rq = \<lparr>meth = GET,
                 url = ''https://api.github.com/repos/'' @ github_username r @ ''/''
                       @ repo_name @ ''/contents'',
                 headers = base_headers r, timeout = None\<rparr> in
      case http w h rq of
        TransportError \<Rightarrow> ([Http rq], Inl RequestException)
      | Response res \<Rightarrow>
          if status_code res \<noteq> 200 then ([Http rq, Print (AnalyzeFailed res)], Inr None)
          else let names = entry_names res;
                   readme = list_ex (\<lambda>n. startswith (lower n) ''readme'') names;
                   package_json = list_ex (\<lambda>n. n = ''package.json'') names;
                   dockerfile = list_ex (\<lambda>n. lower n = ''dockerfile'') names in
            ([Http rq],
             Inr (Some \<lparr>files = names, has_readme = readme, has_package_json = package_json,
                        has_dockerfile = dockerfile,
                        suggestions =
                          (if \<not> readme then [''Add a README.md file''] else [])
                          @ (if \<not> package_json \<and> list_ex (\<lambda>n. contains n ''.js'') names
                             then [''Consider adding package.json for Node.js project'']
                             else [])\<rparr>)))"

section \<open>Generators\<close>

definition generate_readme :: "string \<Rightarrow> content" where
  "generate_readme repo_name = ReadmeTemplate repo_name"

definition generate_gitignore :: content where
  "generate_gitignore = GitignoreTemplate"

definition generate_github_actions_workflow :: "string list \<Rightarrow> content" where
  "generate_github_actions_workflow platforms = DeployWorkflowTemplate platforms"

text \<open>
  The assignment \<^verbatim>\<open>d[k] = v\<close> on a dictionary kept as the list of its items: an
  existing key keeps its place, a new key goes to the end.
\<close>

fun dict_set :: "(string \<times> 'v) list \<Rightarrow> string \<Rightarrow> 'v \<Rightarrow> (string \<times> 'v) list" where
  "dict_set [] k v = [(k, v)]"
| "dict_set ((k', v') # d) k v = (if k' = k then (k, v) # d else (k', v') # dict_set d k v)"

text \<open>
  The dictionary \<^verbatim>\<open>improvements\<close> that \<^verbatim>\<open>auto_improve_repository\<close> builds from the
  analysis before it hands it to the workflow.
\<close>

definition improvements :: "string \<Rightarrow> analysis \<Rightarrow> (string \<times> content) list" where
  "improvements repo_name a =
     (let d0 = [];
          d1 = (if \<not> has_readme a then dict_set d0 ''README.md'' (generate_readme repo_name)
                else d0);
          d2 = (if ''.gitignore'' \<notin> set (files a)
                then dict_set d1 ''.gitignore'' generate_gitignore else d1) in
      dict_set d2 ''.github/workflows/deploy.yml''
        (generate_github_actions_workflow [''vercel'', ''render'', ''netlify'']))"

definition auto_improve_repository ::
  "world \<Rightarrow> robot \<Rightarrow> string \<Rightarrow> event list \<Rightarrow> event list \<times> (exn + bool)" where
  "auto_improve_repository w r repo_name h =
     (case analyze_repository w r repo_name h of
        (e0, Inl x) \<Rightarrow> (e0, Inl x)
      | (e0, Inr None) \<Rightarrow> (e0, Inr False)
      | (e0, Inr (Some a)) \<Rightarrow>
          let imp = improvements repo_name a in
          if imp \<noteq> [] then
            (case auto_workflow_update_and_deploy w r repo_name imp (h @ e0) of
               (e1, Inl x) \<Rightarrow> (e0 @ e1, Inl x)
             | (e1, Inr _) \<Rightarrow> (e0 @ e1 @ [Print (Improved repo_name (length imp))], Inr True))
          else (e0 @ [Print NoImprovementsNeeded], Inr True))"

section \<open>Batch, status and health\<close>

text \<open>
  The body of the \<^verbatim>\<open>if/elif\<close> chain of the batch loop: the value of \<^verbatim>\<open>ok\<close> for one
  repository. \<open>files_arg\<close> is \<^verbatim>\<open>kwargs.get("files", {})\<close>.
\<close>

definition run_operation ::
  "world \<Rightarrow> robot \<Rightarrow> string \<Rightarrow> (string \<times> content) list \<Rightarrow> string \<Rightarrow> event list
     \<Rightarrow> event list \<times> (exn + bool)" where
  "run_operation w r operation files_arg repo h =
     (if operation = ''update_and_deploy''
      then auto_workflow_update_and_deploy w r repo files_arg h
      else if operation = ''improve'' then auto_improve_repository w r repo h
      else if operation = ''deploy'' then
        (case trigger_all_deployments w r repo h of
           (e, Inl x) \<Rightarrow> (e, Inl x)
         | (e, Inr _) \<Rightarrow> (e, Inr True))
      else ([Print (UnknownOperation operation)], Inr False))"

text \<open>
  The loop of \<^verbatim>\<open>batch_repository_operation\<close>, with the list \<^verbatim>\<open>results\<close> built so
  far. There is no \<^verbatim>\<open>try\<close> in the source: an exception of one repository ends the loop.
\<close>

fun batch_loop ::
  "world \<Rightarrow> robot \<Rightarrow> string \<Rightarrow> (string \<times> content) list \<Rightarrow> string list
     \<Rightarrow> (string \<times> bool) list \<Rightarrow> event list
     \<Rightarrow> event list \<times> (exn + (string \<times> bool) list)" where
  "batch_loop w r operation files_arg [] results h = ([], Inr results)"
| "batch_loop w r operation files_arg (repo # repos) results h =
     (case run_operation w r operation files_arg repo (h @ [Print (Processing repo)]) of
        (e1, Inl x) \<Rightarrow> (Print (Processing repo) # e1, Inl x)
      | (e1, Inr ok) \<Rightarrow>
          (case batch_loop w r operation files_arg repos (results @ [(repo, ok)])
                  (h @ Print (Processing repo) # e1 @ [Sleep]) of
             (e2, res) \<Rightarrow> (Print (Processing repo) # e1 @ [Sleep] @ e2, res)))"

definition batch_repository_operation ::
  "world \<Rightarrow> robot \<Rightarrow> string list \<Rightarrow> string \<Rightarrow> (string \<times> content) list \<Rightarrow> event list
     \<Rightarrow> event list \<times> (exn + (string \<times> bool) list)" where
  "batch_repository_operation w r repos operation files_arg h =
     batch_loop w r operation files_arg repos [] h"

text \<open>
  \<^verbatim>\<open>check_deployment_status\<close> returns \<^verbatim>\<open>{}\<close> (\<open>None\<close>) or a dictionary with the
  status of the latest run.
\<close>

definition check_deployment_status ::
  "world \<Rightarrow> robot \<Rightarrow> string \<Rightarrow> event list \<Rightarrow> event list \<times> (exn + workflow_run option)" where
  "check_deployment_status w r repo_name h =
     (if github_token r = [] then ([], Inr None)
      else let rq = \<lparr>meth = GET,
                      url = ''https://api.github.com/repos/'' @ github_username r @ ''/''
                            @ repo_name @ ''/actions/runs'',
                      headers = base_headers r, timeout = None\<rparr> in
        case http w h rq of
          Response res \<Rightarrow>
            if status_code res = 200
            then ([Http rq], Inr (case workflow_runs res of [] \<Rightarrow> None | latest # _ \<Rightarrow> Some latest))
            else ([Http rq], Inr None)
        | TransportError \<Rightarrow> ([Http rq], Inl RequestException))"

text \<open>The report of \<^verbatim>\<open>health_check_all_repos\<close>: one line per repository name.\<close>

record health =
  last_updated :: string
  has_issues :: bool
  is_private :: bool
  health_default_branch :: string

fun health_report :: "repo_entry list \<Rightarrow> (string \<times> health) list \<Rightarrow> (string \<times> health) list" where
  "health_report [] report = report"
| "health_report (repo # repos) report =
     health_report repos
       (dict_set report (repo_name_of repo)
          \<lparr>last_updated = repo_updated_at repo, has_issues = (open_issues_count repo > 0),
           is_private = repo_private repo, health_default_branch = repo_default_branch repo\<rparr>)"

definition health_check_all_repos ::
  "world \<Rightarrow> robot \<Rightarrow> event list \<Rightarrow> event list \<times> (exn + (string \<times> health) list)" where
  "health_check_all_repos w r h =
     (if github_token r = [] then ([Print HealthCheckSkipped], Inr [])
      else let rq = \<lparr>meth = GET,
                      url = ''https://api.github.com/users/'' @ github_username r @ ''/repos'',
                      headers = base_headers r, timeout = None\<rparr> in
        case http w h rq of
          Response res \<Rightarrow>
            if status_code res \<noteq> 200 then ([Http rq, Print (ListReposFailed res)], Inr [])
            else ([Http rq], Inr (health_report (repo_entries res) []))
        | TransportError \<Rightarrow> ([Http rq], Inl RequestException))"

text \<open>
  \<^verbatim>\<open>auto_pr_review\<close> returns \<^verbatim>\<open>{}\<close> (\<open>None\<close>) or the review built by the loop over
  the files of the pull request.
\<close>

record review =
  review_suggestions :: "string list"
  review_warnings :: "string list"
  review_approvals :: "string list"

fun review_files :: "pr_file list \<Rightarrow> review \<Rightarrow> review" where
  "review_files [] rv = rv"
| "review_files (f # fs) rv =
     (let rv1 = (if endswith (filename f) ''.js'' \<and> contains (patch f) ''console.log''
                 then rv\<lparr>review_warnings :=
                           review_warnings rv @ [''Console.log found in '' @ filename f]\<rparr>
                 else rv);
          rv2 = (if endswith (filename f) ''.py'' \<and> contains (patch f) ''print(''
                 then rv1\<lparr>review_suggestions :=
                            review_suggestions rv1
                              @ [''Use logging instead of print in '' @ filename f]\<rparr>
                 else rv1);
          rv3 = (if additions f > 500
                 then rv2\<lparr>review_warnings :=
                            review_warnings rv2
                              @ [''Large change in '' @ filename f @ '' (''
                                 @ str_nat (additions f) @ '' additions)'']\<rparr>
                 else rv2) in
      review_files fs rv3)"

definition auto_pr_review ::
  "world \<Rightarrow> robot \<Rightarrow> string \<Rightarrow> nat \<Rightarrow> event list \<Rightarrow> event list \<times> (exn + review option)" where
  "auto_pr_review w r repo_name pr_number h =
     (if github_token r = [] then ([], Inl ValueError)
      else let rq = \<lparr>meth = GET,
                      url = ''https://api.github.com/repos/'' @ github_username r @ ''/''
                            @ repo_name @ ''/pulls/'' @ str_nat pr_number @ ''/files'',
                      headers = base_headers r, timeout = None\<rparr> in
        case http w h rq of
          Response res \<Rightarrow>
            if status_code res \<noteq> 200
            then ([Http rq, Print (PullRequestFilesFailed res)], Inr None)
            else ([Http rq],
                  Inr (Some (review_files (pr_files res)
                               \<lparr>review_suggestions = [], review_warnings = [],
                                review_approvals = []\<rparr>)))
        | TransportError \<Rightarrow> ([Http rq], Inl RequestException))"

section \<open>Reading a trace\<close>

text \<open>
  Kinds of events, used to say what a run did: the messages that only the deployment
  code prints, the events of the deployment fan-out (its messages and its POST
  requests), the "triggered" messages of the adapters, clone requests, file writes,
  commits, and the requests that carry no bound, or a bound, on the wait.
\<close>

fun deploy_message :: "message \<Rightarrow> bool" where
  "deploy_message VercelNotEnabled = True"
| "deploy_message VercelMissingHook = True"
| "deploy_message VercelTriggered = True"
| "deploy_message (VercelFailed res) = True"
| "deploy_message VercelRequestError = True"
| "deploy_message RenderNotEnabled = True"
| "deploy_message RenderTokenNotSet = True"
| "deploy_message RenderMissingServiceId = True"
| "deploy_message RenderTriggered = True"
| "deploy_message (RenderFailed res) = True"
| "deploy_message NetlifyNotEnabled = True"
| "deploy_message NetlifyTriggered = True"
| "deploy_message (NetlifyFailed res) = True"
| "deploy_message NetlifyRequestError = True"
| "deploy_message NetlifyMissingHook = True"
| "deploy_message NoDeploymentsTriggered = True"
| "deploy_message _ = False"

fun deploy_event :: "event \<Rightarrow> bool" where
  "deploy_event (Print m) = deploy_message m"
| "deploy_event (Http rq) = (meth rq = POST)"
| "deploy_event _ = False"

fun triggered :: "event \<Rightarrow> bool" where
  "triggered (Print VercelTriggered) = True"
| "triggered (Print RenderTriggered) = True"
| "triggered (Print NetlifyTriggered) = True"
| "triggered _ = False"

fun is_clone :: "event \<Rightarrow> bool" where
  "is_clone (Git (Clone u p) d) = True"
| "is_clone _ = False"

fun is_write :: "event \<Rightarrow> bool" where
  "is_write (WriteFile p c) = True"
| "is_write (MakeDirs p) = True"
| "is_write _ = False"

fun is_commit :: "event \<Rightarrow> bool" where
  "is_commit (Git (Commit m) d) = True"
| "is_commit _ = False"

fun unbounded_wait :: "event \<Rightarrow> bool" where
  "unbounded_wait (Http rq) = (timeout rq = None)"
| "unbounded_wait _ = True"

fun bounded_wait :: "event \<Rightarrow> bool" where
  "bounded_wait (Http rq) = (timeout rq \<noteq> None)"
| "bounded_wait _ = True"

text \<open>The events of \<^verbatim>\<open>commit_and_push\<close>: git commands other than a clone, and its messages.\<close>

fun commit_cycle_event :: "event \<Rightarrow> bool" where
  "commit_cycle_event (Git (Clone u p) d) = False"
| "commit_cycle_event (Git g d) = True"
| "commit_cycle_event (Print GitIdentityWarning) = True"
| "commit_cycle_event (Print (CommittedAndPushed b m)) = True"
| "commit_cycle_event (Print GitOperationFailed) = True"
| "commit_cycle_event _ = False"

fun file_event :: "event \<Rightarrow> bool" where
  "file_event (MakeDirs p) = True"
| "file_event (WriteFile p c) = True"
| "file_event (Print (UpdatedFile p)) = True"
| "file_event _ = False"

text \<open>
  What an adapter may leave in the trace: deployment events only, no request with a
  bound on the wait, and never the closing message of the fan-out.
\<close>

definition quiet :: "event list \<Rightarrow> bool" where
  "quiet e = (list_all deploy_event e \<and> list_all unbounded_wait e
         \<and> Print NoDeploymentsTriggered \<notin> set e)"

text \<open>
  The clone request of \<^verbatim>\<open>clone_repository\<close> when no local path is given, the condition
  under which the workflow sequencer has a working copy (the directory exists, or the
  clone ends with return code 0).
\<close>

definition clone_cmd :: "robot \<Rightarrow> string \<Rightarrow> git_cmd" where
  "clone_cmd r repo_name =
     Clone (''https://github.com/'' @ github_username r @ ''/'' @ repo_name @ ''.git'')
           (''./'' @ repo_name)"

definition copy_obtained :: "world \<Rightarrow> robot \<Rightarrow> string \<Rightarrow> event list \<Rightarrow> bool" where
  "copy_obtained w r repo_name h =
     (let h0 = h @ [Print (StartingWorkflow repo_name)] in
      path_exists w h0 (''./'' @ repo_name) \<or> returncode (run w h0 (clone_cmd r repo_name) []) = 0)"

text \<open>
  The events of a workflow that has a working copy, up to the start of the loop over
  the files; whether that loop then writes every file without an error; and, when it
  does, the events up to the end of \<^verbatim>\<open>commit_and_push\<close>.
\<close>

definition checkout_events :: "world \<Rightarrow> robot \<Rightarrow> string \<Rightarrow> event list \<Rightarrow> event list" where
  "checkout_events w r n h =
     Print (StartingWorkflow n)
       # (if path_exists w (h @ [Print (StartingWorkflow n)]) (''./'' @ n) then []
          else [Git (clone_cmd r n) [], Print (Cloned (''./'' @ n))])"

definition files_written ::
  "world \<Rightarrow> robot \<Rightarrow> string \<Rightarrow> (string \<times> content) list \<Rightarrow> event list \<Rightarrow> bool" where
  "files_written w r n fs h =
     (snd (write_files w (''./'' @ n) fs (h @ checkout_events w r n h)) = Inr ())"

definition workflow_prefix ::
  "world \<Rightarrow> robot \<Rightarrow> string \<Rightarrow> (string \<times> content) list \<Rightarrow> event list \<Rightarrow> event list" where
  "workflow_prefix w r n fs h =
     (let e1 = checkout_events w r n h;
          e2 = fst (write_files w (''./'' @ n) fs (h @ e1)) in
      e1 @ e2 @ commit_and_push w r (''./'' @ n) (Some (AutoUpdate (length fs))) [] []
                  (h @ e1 @ e2))"

text \<open>
  The history at which the batch runs the operation of its \<open>i\<close>-th repository: the
  events of the batch over the repositories before it, then the message that announces
  it.
\<close>

definition item_history ::
  "world \<Rightarrow> robot \<Rightarrow> string list \<Rightarrow> string \<Rightarrow> (string \<times> content) list \<Rightarrow> event list \<Rightarrow> nat
     \<Rightarrow> event list" where
  "item_history w r repos operation files_arg h i =
     h @ fst (batch_repository_operation w r (take i repos) operation files_arg h)
       @ [Print (Processing (repos ! i))]"

section \<open>Scenarios\<close>

text \<open>
  The configuration that \<^verbatim>\<open>create_default_config\<close> writes (every platform disabled,
  auto-deploy on), with no token.
\<close>

definition default_config :: robot where
  "default_config =
     \<lparr>github_token = [], github_username = ''your_github_username'',
      default_branch = Some ''main'', auto_deploy = Some True,
      hosting_platforms =
        [''vercel'' \<mapsto> \<lparr>enabled = False, deploy_hook_url = [], service_id = []\<rparr>,
         ''render'' \<mapsto> \<lparr>enabled = False, deploy_hook_url = [], service_id = []\<rparr>,
         ''netlify'' \<mapsto> \<lparr>enabled = False, deploy_hook_url = [], service_id = []\<rparr>]\<rparr>"

text \<open>The same identity with the three platforms enabled and fully configured.\<close>

definition all_enabled :: robot where
  "all_enabled =
     default_config\<lparr>hosting_platforms :=
        [''vercel'' \<mapsto> \<lparr>enabled = True, deploy_hook_url = ''https://v.example/hook'', service_id = []\<rparr>,
         ''render'' \<mapsto> \<lparr>enabled = True, deploy_hook_url = [], service_id = ''srv-1''\<rparr>,
         ''netlify'' \<mapsto> \<lparr>enabled = True, deploy_hook_url = ''https://n.example/hook'', service_id = []\<rparr>]\<rparr>"

definition plain_response :: "nat \<Rightarrow> response" where
  "plain_response code =
     \<lparr>status_code = code, entry_names = [], json_default_branch = None,
      workflow_runs = [], repo_entries = [], pr_files = []\<rparr>"

text \<open>
  A world in which the content listing of the repository \<^verbatim>\<open>r2\<close> is answered with 404
  and every other request with 200; git succeeds, the local directories exist and can
  be written.
\<close>

definition second_listing_fails :: world where
  "second_listing_fails =
     \<lparr>http = (\<lambda>h rq.
         if url rq = ''https://api.github.com/repos/your_github_username/r2/contents''
         then Response (plain_response 404) else Response (plain_response 200)),
      run = (\<lambda>h g d. \<lparr>returncode = 0, stdout = []\<rparr>),
      path_exists = (\<lambda>h p. True),
      makedirs_ok = (\<lambda>h p. True),
      write_ok = (\<lambda>h p c. True),
      render_token = [],
      timestamp = (\<lambda>h. ''2024-01-01 00:00'')\<rparr>"

text \<open>
  A world in which the Render service answers 500 and the two hooks answer 200.
\<close>

definition render_refuses :: world where
  "render_refuses =
     \<lparr>http = (\<lambda>h rq.
         if url rq = ''https://api.render.com/v1/services/srv-1/deploys''
         then Response (plain_response 500) else Response (plain_response 200)),
      run = (\<lambda>h g d. \<lparr>returncode = 0, stdout = []\<rparr>),
      path_exists = (\<lambda>h p. True),
      makedirs_ok = (\<lambda>h p. True),
      write_ok = (\<lambda>h p c. True),
      render_token = ''secret'',
      timestamp = (\<lambda>h. ''2024-01-01 00:00'')\<rparr>"

text \<open>
  A world that answers every request with the same outcome, ends every git command
  with the same return code except the push, which has its own, and in which the
  local directory exists or not; directories and files can be written and
  \<^verbatim>\<open>RENDER_TOKEN\<close> is set.
\<close>

definition steady_world :: "http_outcome \<Rightarrow> nat \<Rightarrow> nat \<Rightarrow> bool \<Rightarrow> world" where
  "steady_world answer git_code push_code present =
     \<lparr>http = (\<lambda>h rq. answer),
      run = (\<lambda>h g d. \<lparr>returncode = (case g of Push remote b \<Rightarrow> push_code | _ \<Rightarrow> git_code),
                       stdout = []\<rparr>),
      path_exists = (\<lambda>h p. present),
      makedirs_ok = (\<lambda>h p. True),
      write_ok = (\<lambda>h p c. True),
      render_token = ''secret'',
      timestamp = (\<lambda>h. ''2024-01-01 00:00'')\<rparr>"

section \<open>The platform trigger adapters\<close>

text \<open>
  What each adapter leaves in the trace: at least one event, all of them deployment
  events, no request with a bound on the wait, never the message of the fan-out; and
  its result is \<open>True\<close> exactly when it printed its "triggered" message. Only the
  Render adapter can end with an exception.
\<close>

lemma vercel_shape:
  assumes "deploy_to_vercel w r n h = (e, x)"
  shows "list_all deploy_event e \<and> e \<noteq> [] \<and> list_all unbounded_wait e
         \<and> Print NoDeploymentsTriggered \<notin> set e \<and> x = Inr (list_ex triggered e)"
  using assms
  by (auto simp: deploy_to_vercel_def Let_def split: http_outcome.splits if_splits)

lemma netlify_shape:
  assumes "deploy_to_netlify w r h = (e, x)"
  shows "list_all deploy_event e \<and> e \<noteq> [] \<and> list_all unbounded_wait e
         \<and> Print NoDeploymentsTriggered \<notin> set e \<and> x = Inr (list_ex triggered e)"
  using assms
  by (auto simp: deploy_to_netlify_def Let_def split: http_outcome.splits if_splits)

lemma render_shape:
  assumes "deploy_to_render w r s h = (e, x)"
  shows "list_all deploy_event e \<and> e \<noteq> [] \<and> list_all unbounded_wait e
         \<and> Print NoDeploymentsTriggered \<notin> set e
         \<and> (x = Inr (list_ex triggered e) \<or> x = Inl RequestException \<and> \<not> list_ex triggered e)"
  using assms
  by (auto simp: deploy_to_render_def Let_def split: http_outcome.splits if_splits)

text \<open>
  C7. A target whose \<open>enabled\<close> flag is false: the adapter returns \<open>False\<close> at once.
  Its whole trace is one message, whatever the world is, so no request is made.
\<close>

theorem disabled_target_short_circuits:
  "(\<not> enabled (platform r ''vercel'') \<longrightarrow>
      deploy_to_vercel w r repo_name h = ([Print VercelNotEnabled], Inr False)) \<and>
   (\<not> enabled (platform r ''render'') \<longrightarrow>
      deploy_to_render w r sid h = ([Print RenderNotEnabled], Inr False)) \<and>
   (\<not> enabled (platform r ''netlify'') \<longrightarrow>
      deploy_to_netlify w r h = ([Print NetlifyNotEnabled], Inr False))"
  by (simp add: deploy_to_vercel_def deploy_to_render_def deploy_to_netlify_def)

theorem disabled_target_short_circuits_witness:
  "\<not> enabled (platform default_config ''vercel'') \<and>
   \<not> enabled (platform default_config ''render'') \<and>
   \<not> enabled (platform default_config ''netlify'') \<and>
   deploy_to_vercel (steady_world (Response (plain_response 200)) 0 0 True) default_config
      ''app'' [] = ([Print VercelNotEnabled], Inr False) \<and>
   deploy_to_render (steady_world (Response (plain_response 200)) 0 0 True) default_config
      ''srv-1'' [] = ([Print RenderNotEnabled], Inr False) \<and>
   deploy_to_netlify (steady_world (Response (plain_response 200)) 0 0 True) default_config
      [] = ([Print NetlifyNotEnabled], Inr False)"
  using disabled_target_short_circuits
    [of default_config "steady_world (Response (plain_response 200)) 0 0 True" "''app''" "[]"
        "''srv-1''"]
  by (simp add: platform_def default_config_def)

section \<open>The deployment fan-out\<close>

lemma quiet_simps: "quiet []" "quiet (a @ b) = (quiet a \<and> quiet b)"
  by (auto simp: quiet_def)

lemma attempt_vercel:
  assumes "attempt on (deploy_to_vercel w r n) h ok = (e, x)"
  shows "quiet e \<and> (on \<longleftrightarrow> e \<noteq> []) \<and> x = Inr (list_ex triggered e \<or> ok)"
  using assms
  by (auto simp: attempt_def quiet_def split: if_splits prod.splits sum.splits dest!: vercel_shape)

lemma attempt_netlify:
  assumes "attempt on (deploy_to_netlify w r) h ok = (e, x)"
  shows "quiet e \<and> (on \<longleftrightarrow> e \<noteq> []) \<and> x = Inr (list_ex triggered e \<or> ok)"
  using assms
  by (auto simp: attempt_def quiet_def split: if_splits prod.splits sum.splits dest!: netlify_shape)

lemma attempt_render:
  assumes "attempt on (deploy_to_render w r s) h ok = (e, x)"
  shows "quiet e \<and> (on \<longleftrightarrow> e \<noteq> [])
         \<and> (x = Inr (list_ex triggered e \<or> ok) \<or> x = Inl RequestException \<and> on)"
  using assms
  by (auto simp: attempt_def quiet_def split: if_splits prod.splits sum.splits dest!: render_shape)

lemma attempt_render_returns:
  assumes "attempt on (deploy_to_render w r s) h ok = (e, x)"
    and "\<not> on \<or> (\<forall>rq. http w h rq \<noteq> TransportError)"
  shows "x \<noteq> Inl RequestException"
  using assms
  by (auto simp: attempt_def deploy_to_render_def Let_def
      split: if_splits prod.splits sum.splits http_outcome.splits)

lemma count_quiet: "quiet e \<Longrightarrow> filter (\<lambda>ev. ev = Print NoDeploymentsTriggered) e = []"
  by (auto simp: quiet_def filter_empty_conv)

lemma fan_out_shape:
  assumes "trigger_all_deployments w r n h = (e, x)"
  shows "list_all deploy_event e \<and> e \<noteq> [] \<and> list_all unbounded_wait e
         \<and> (x = Inr None \<or> x = Inl RequestException)
         \<and> (x = Inr None \<longrightarrow>
              length (filter (\<lambda>ev. ev = Print NoDeploymentsTriggered) e)
                = (if list_ex triggered e then 0 else 1))"
proof -
  obtain e1 x1 where s1:
    "attempt (enabled (platform r ''vercel'')) (deploy_to_vercel w r n) h False = (e1, x1)"
    by (cases "attempt (enabled (platform r ''vercel'')) (deploy_to_vercel w r n) h False")
  note p1 = attempt_vercel[OF s1]
  obtain e2 x2 where s2:
    "attempt (enabled (platform r ''render''))
       (deploy_to_render w r (service_id (platform r ''render''))) (h @ e1)
       (list_ex triggered e1) = (e2, x2)"
    by (cases "attempt (enabled (platform r ''render''))
       (deploy_to_render w r (service_id (platform r ''render''))) (h @ e1)
       (list_ex triggered e1)")
  note p2 = attempt_render[OF s2]
  obtain e3 x3 where s3:
    "attempt (enabled (platform r ''netlify'')) (deploy_to_netlify w r) (h @ e1 @ e2)
       (list_ex triggered e2 \<or> list_ex triggered e1) = (e3, x3)"
    by (cases "attempt (enabled (platform r ''netlify'')) (deploy_to_netlify w r) (h @ e1 @ e2)
       (list_ex triggered e2 \<or> list_ex triggered e1)")
  note p3 = attempt_netlify[OF s3]
  from p1 have x1: "x1 = Inr (list_ex triggered e1)" by simp
  show ?thesis
  proof (cases "x2 = Inl RequestException")
    case True
    with assms s1 x1 s2 p1 p2 show ?thesis
      by (auto simp: trigger_all_deployments_def Let_def quiet_def)
  next
    case False
    with p2 have x2: "x2 = Inr (list_ex triggered e2 \<or> list_ex triggered e1)" by simp
    from p3 have x3: "x3 = Inr (list_ex triggered e3 \<or> list_ex triggered e2 \<or> list_ex triggered e1)"
      by simp
    from assms s1 x1 s2 x2 s3 x3 have
      ex: "e = e1 @ e2 @ e3 @ (if list_ex triggered e3 \<or> list_ex triggered e2 \<or> list_ex triggered e1 then [] else [Print NoDeploymentsTriggered])"
      "x = Inr None"
      by (auto simp: trigger_all_deployments_def Let_def split: if_splits)
    from p1 p2 p3 have q: "quiet e1" "quiet e2" "quiet e3" by simp_all
    show ?thesis
      using q count_quiet[OF q(1)] count_quiet[OF q(2)] count_quiet[OF q(3)]
      by (auto simp: ex quiet_def)
  qed
qed

lemma fan_out_returns:
  assumes "\<not> enabled (platform r ''render'') \<or> (\<forall>h' rq. http w h' rq \<noteq> TransportError)"
  shows "snd (trigger_all_deployments w r n h) = Inr None"
proof -
  obtain e1 x1 where s1:
    "attempt (enabled (platform r ''vercel'')) (deploy_to_vercel w r n) h False = (e1, x1)"
    by (cases "attempt (enabled (platform r ''vercel'')) (deploy_to_vercel w r n) h False")
  from attempt_vercel[OF s1] have x1: "x1 = Inr (list_ex triggered e1)" by simp
  obtain e2 x2 where s2:
    "attempt (enabled (platform r ''render''))
       (deploy_to_render w r (service_id (platform r ''render''))) (h @ e1)
       (list_ex triggered e1) = (e2, x2)"
    by (cases "attempt (enabled (platform r ''render''))
       (deploy_to_render w r (service_id (platform r ''render''))) (h @ e1)
       (list_ex triggered e1)")
  from attempt_render[OF s2] attempt_render_returns[OF s2] assms
  have x2: "x2 = Inr (list_ex triggered e2 \<or> list_ex triggered e1)" by blast
  obtain e3 x3 where s3:
    "attempt (enabled (platform r ''netlify'')) (deploy_to_netlify w r) (h @ e1 @ e2)
       (list_ex triggered e2 \<or> list_ex triggered e1) = (e3, x3)"
    by (cases "attempt (enabled (platform r ''netlify'')) (deploy_to_netlify w r) (h @ e1 @ e2)
       (list_ex triggered e2 \<or> list_ex triggered e1)")
  from attempt_netlify[OF s3]
  have x3: "x3 = Inr (list_ex triggered e3 \<or> list_ex triggered e2 \<or> list_ex triggered e1)"
    by simp
  show ?thesis
    using s1 x1 s2 x2 s3 x3 by (simp add: trigger_all_deployments_def Let_def)
qed

lemmas fan_out_run = trigger_all_deployments_def attempt_def deploy_to_vercel_def
  deploy_to_render_def deploy_to_netlify_def platform_def all_enabled_def default_config_def
  steady_world_def plain_response_def accepted_def Let_def

text \<open>
  C2. The claim: during the fan-out, a failure of one enabled target never prevents
  the remaining targets from being attempted, in particular a transport error of the
  Render trigger does not prevent the Netlify trigger. The code at that input: with
  the three targets enabled and every request ending in a transport error, the Vercel
  adapter catches the error, the Render adapter does not, and the fan-out ends with
  the exception before the Netlify hook is posted.
\<close>

theorem render_transport_error_ends_fan_out:
  "trigger_all_deployments (steady_world TransportError 0 0 True) all_enabled ''app'' [] =
     ([Http \<lparr>meth = POST, url = ''https://v.example/hook'', headers = [], timeout = None\<rparr>,
       Print VercelRequestError,
       Http \<lparr>meth = POST, url = ''https://api.render.com/v1/services/srv-1/deploys'',
             headers = [(''Authorization'', ''Bearer secret''),
                        (''Content-Type'', ''application/json'')],
             timeout = None\<rparr>],
      Inl RequestException)"
  by (simp add: fan_out_run)

text \<open>
  C3, as stated, fails: the fan-out does not return the aggregate. With the three
  triggers accepted, its value is \<open>None\<close>, not \<open>True\<close>.
\<close>

theorem fan_out_returns_no_value:
  "trigger_all_deployments (steady_world (Response (plain_response 200)) 0 0 True) all_enabled
      ''app'' [] =
     ([Http \<lparr>meth = POST, url = ''https://v.example/hook'', headers = [], timeout = None\<rparr>,
       Print VercelTriggered,
       Http \<lparr>meth = POST, url = ''https://api.render.com/v1/services/srv-1/deploys'',
             headers = [(''Authorization'', ''Bearer secret''),
                        (''Content-Type'', ''application/json'')],
             timeout = None\<rparr>,
       Print RenderTriggered,
       Http \<lparr>meth = POST, url = ''https://n.example/hook'', headers = [], timeout = None\<rparr>,
       Print NetlifyTriggered],
      Inr None)
   \<and> snd (trigger_all_deployments (steady_world (Response (plain_response 200)) 0 0 True)
             all_enabled ''app'' []) \<noteq> Inr (Some True)"
  by (simp add: fan_out_run)

text \<open>
  C3, amended. The fan-out returns no value: it ends with \<open>None\<close>. It runs the
  adapter of each enabled target, in the order Vercel, Render, Netlify, each after the
  events of those before it; a target that is not enabled adds nothing and counts as
  \<open>False\<close>. When none of these adapters raises, the trace of the fan-out is their
  traces in that order, followed by the message "no deployments triggered" exactly when
  the disjunction of their results is false: no target enabled, or every attempt
  failed.
\<close>

theorem fan_out_signal:
  assumes "(if enabled (platform r ''vercel'') then deploy_to_vercel w r n h
            else ([], Inr False)) = (e1, Inr b1)"
    and "(if enabled (platform r ''render'')
          then deploy_to_render w r (service_id (platform r ''render'')) (h @ e1)
          else ([], Inr False)) = (e2, Inr b2)"
    and "(if enabled (platform r ''netlify'') then deploy_to_netlify w r (h @ e1 @ e2)
          else ([], Inr False)) = (e3, Inr b3)"
  shows "trigger_all_deployments w r n h =
           (e1 @ e2 @ e3 @ (if b1 \<or> b2 \<or> b3 then [] else [Print NoDeploymentsTriggered]),
            Inr None)"
proof -
  have s1: "attempt (enabled (platform r ''vercel'')) (deploy_to_vercel w r n) h False
              = (e1, Inr b1)"
    using assms(1) by (auto simp: attempt_def split: if_splits)
  have s2: "attempt (enabled (platform r ''render''))
              (deploy_to_render w r (service_id (platform r ''render''))) (h @ e1) b1
              = (e2, Inr (b2 \<or> b1))"
    using assms(2) by (auto simp: attempt_def split: if_splits)
  have s3: "attempt (enabled (platform r ''netlify'')) (deploy_to_netlify w r) (h @ e1 @ e2)
              (b2 \<or> b1) = (e3, Inr (b3 \<or> b2 \<or> b1))"
    using assms(3) by (auto simp: attempt_def split: if_splits)
  show ?thesis
    using s1 s2 s3 by (auto simp: trigger_all_deployments_def Let_def)
qed

lemmas scenario_defs = all_enabled_def default_config_def steady_world_def plain_response_def
  render_refuses_def

theorem fan_out_signal_witness:
  "trigger_all_deployments render_refuses all_enabled ''app'' [] =
     ([Http \<lparr>meth = POST, url = ''https://v.example/hook'', headers = [], timeout = None\<rparr>,
       Print VercelTriggered,
       Http \<lparr>meth = POST, url = ''https://api.render.com/v1/services/srv-1/deploys'',
             headers = [(''Authorization'', ''Bearer secret''),
                        (''Content-Type'', ''application/json'')],
             timeout = None\<rparr>,
       Print (RenderFailed (plain_response 500)),
       Http \<lparr>meth = POST, url = ''https://n.example/hook'', headers = [], timeout = None\<rparr>,
       Print NetlifyTriggered],
      Inr None)
   \<and> trigger_all_deployments (steady_world (Response (plain_response 500)) 0 0 True)
        all_enabled ''app'' [] =
     ([Http \<lparr>meth = POST, url = ''https://v.example/hook'', headers = [], timeout = None\<rparr>,
       Print (VercelFailed (plain_response 500)),
       Http \<lparr>meth = POST, url = ''https://api.render.com/v1/services/srv-1/deploys'',
             headers = [(''Authorization'', ''Bearer secret''),
                        (''Content-Type'', ''application/json'')],
             timeout = None\<rparr>,
       Print (RenderFailed (plain_response 500)),
       Http \<lparr>meth = POST, url = ''https://n.example/hook'', headers = [], timeout = None\<rparr>,
       Print (NetlifyFailed (plain_response 500)),
       Print NoDeploymentsTriggered],
      Inr None)
   \<and> trigger_all_deployments (steady_world TransportError 0 0 True) default_config ''app'' [] =
     ([Print NoDeploymentsTriggered], Inr None)"
proof -
  let ?v = "\<lparr>meth = POST, url = ''https://v.example/hook'', headers = [], timeout = None\<rparr>"
  let ?r = "\<lparr>meth = POST, url = ''https://api.render.com/v1/services/srv-1/deploys'',
             headers = [(''Authorization'', ''Bearer secret''),
                        (''Content-Type'', ''application/json'')],
             timeout = None\<rparr>"
  let ?n = "\<lparr>meth = POST, url = ''https://n.example/hook'', headers = [], timeout = None\<rparr>"
  have a: "trigger_all_deployments render_refuses all_enabled ''app'' [] =
     ([Http ?v, Print VercelTriggered] @ [Http ?r, Print (RenderFailed (plain_response 500))]
        @ [Http ?n, Print NetlifyTriggered]
        @ (if True \<or> False \<or> True then [] else [Print NoDeploymentsTriggered]), Inr None)"
    by (rule fan_out_signal)
       (simp_all add: deploy_to_vercel_def deploy_to_render_def deploy_to_netlify_def
          platform_def accepted_def scenario_defs Let_def)
  have b: "trigger_all_deployments (steady_world (Response (plain_response 500)) 0 0 True)
        all_enabled ''app'' [] =
     ([Http ?v, Print (VercelFailed (plain_response 500))]
        @ [Http ?r, Print (RenderFailed (plain_response 500))]
        @ [Http ?n, Print (NetlifyFailed (plain_response 500))]
        @ (if False \<or> False \<or> False then [] else [Print NoDeploymentsTriggered]), Inr None)"
    by (rule fan_out_signal)
       (simp_all add: deploy_to_vercel_def deploy_to_render_def deploy_to_netlify_def
          platform_def accepted_def scenario_defs Let_def)
  have c: "trigger_all_deployments (steady_world TransportError 0 0 True) default_config ''app'' [] =
     ([] @ [] @ [] @ (if False \<or> False \<or> False then [] else [Print NoDeploymentsTriggered]),
      Inr None)"
    by (rule fan_out_signal)
       (simp_all add: platform_def scenario_defs)
  from a b c show ?thesis by simp
qed

section \<open>The workflow sequencer\<close>

text \<open>
  The git cycle emits git commands (never a clone) and its own messages; the loop over
  the files emits file events and ends normally or with an \<^verbatim>\<open>OSError\<close>. Neither
  emits a deployment event or a request.
\<close>

lemma identity_events: "list_all commit_cycle_event (ensure_git_identity w r p h)"
  by (simp add: ensure_git_identity_def Let_def)

lemma add_files_events:
  "add_files w p fs h = (e, ok) \<Longrightarrow> list_all commit_cycle_event e"
proof (induction fs arbitrary: h e ok)
  case Nil
  then show ?case by simp
next
  case (Cons f fs)
  show ?case
  proof (cases "returncode (run w h (Add f) p) \<noteq> 0")
    case True
    with Cons.prems show ?thesis by auto
  next
    case False
    obtain es ok' where r: "add_files w p fs (h @ [Git (Add f) p]) = (es, ok')"
      by (cases "add_files w p fs (h @ [Git (Add f) p])")
    from Cons.IH[OF r] Cons.prems False r show ?thesis by auto
  qed
qed

lemma commit_and_push_events: "list_all commit_cycle_event (commit_and_push w r p m fs b h)"
proof -
  let ?h1 = "h @ ensure_git_identity w r p h @ (if b = [] then [Git RevParseHead p] else [])"
  obtain e2 added where a:
    "(if fs \<noteq> [] then add_files w p fs ?h1
      else ([Git (Add ''.'') p], returncode (run w ?h1 (Add ''.'') p) = 0)) = (e2, added)"
    by (cases "(if fs \<noteq> [] then add_files w p fs ?h1
      else ([Git (Add ''.'') p], returncode (run w ?h1 (Add ''.'') p) = 0))")
  have e2: "list_all commit_cycle_event e2"
    using a add_files_events[of w p fs ?h1 e2 added] by (auto split: if_splits)
  show ?thesis
    using a e2 by (simp add: commit_and_push_def Let_def identity_events)
qed

lemma write_files_shape:
  "write_files w p fs h = (e, x) \<Longrightarrow>
     list_all file_event e \<and> (x = Inr () \<or> x = Inl OSError)"
proof (induction fs arbitrary: h e x)
  case Nil
  then show ?case by simp
next
  case (Cons f fs)
  obtain fp c where f: "f = (fp, c)" by (cases f)
  let ?full = "path_join p fp"
  let ?d = "dirname ?full"
  let ?step = "[MakeDirs ?d, WriteFile ?full c, Print (UpdatedFile fp)]"
  obtain es y where r: "write_files w p fs (h @ ?step) = (es, y)"
    by (cases "write_files w p fs (h @ ?step)")
  from Cons.IH[OF r] have i: "list_all file_event es" "y = Inr () \<or> y = Inl OSError" by simp_all
  show ?case
    using Cons.prems f r i by (auto simp: Let_def split: if_splits)
qed

lemma not_clone:
  "file_event e \<Longrightarrow> \<not> is_clone e"
  "commit_cycle_event e \<Longrightarrow> \<not> is_clone e"
  "deploy_event e \<Longrightarrow> \<not> is_clone e"
  by (cases e rule: is_clone.cases; simp)+

lemma not_deploy:
  "file_event e \<Longrightarrow> \<not> deploy_event e"
  "commit_cycle_event e \<Longrightarrow> \<not> deploy_event e"
  by (cases e rule: commit_cycle_event.cases; simp)+

lemma not_commit: "file_event e \<Longrightarrow> \<not> is_commit e"
  by (cases e rule: is_commit.cases; simp)

lemma list_all_mono: "list_all P xs \<Longrightarrow> (\<And>x. P x \<Longrightarrow> Q x) \<Longrightarrow> list_all Q xs"
  by (induction xs) auto

lemma unbounded_ok: "file_event e \<or> commit_cycle_event e \<Longrightarrow> unbounded_wait e"
  by (cases e) auto

lemma clone_result:
  "clone_repository w r n [] h =
     (if returncode (run w h (clone_cmd r n) []) = 0
      then ([Git (clone_cmd r n) [], Print (Cloned (''./'' @ n))], ''./'' @ n)
      else ([Git (clone_cmd r n) [], Print (CloneFailed n)], []))"
  by (simp add: clone_repository_def clone_cmd_def Let_def)

lemma workflow_clone_failed:
  assumes "\<not> copy_obtained w r n h"
  shows "auto_workflow_update_and_deploy w r n fs h =
           ([Print (StartingWorkflow n), Git (clone_cmd r n) [], Print (CloneFailed n)], Inr False)"
  using assms
  by (simp add: auto_workflow_update_and_deploy_def copy_obtained_def clone_result Let_def)

text \<open>With a working copy, the sequencer first runs the loop over the files.\<close>

lemma workflow_checkout:
  assumes "copy_obtained w r n h"
  shows "auto_workflow_update_and_deploy w r n fs h =
     (case write_files w (''./'' @ n) fs (h @ checkout_events w r n h) of
        (e2, Inl x) \<Rightarrow> (checkout_events w r n h @ e2, Inl x)
      | (e2, Inr u) \<Rightarrow>
          (let e3 = commit_and_push w r (''./'' @ n) (Some (AutoUpdate (length fs))) [] []
                      (h @ checkout_events w r n h @ e2) in
           if auto_deploy r \<noteq> Some False then
             (case trigger_all_deployments w r n (h @ checkout_events w r n h @ e2 @ e3) of
                (e4, Inl x) \<Rightarrow> (checkout_events w r n h @ e2 @ e3 @ e4, Inl x)
              | (e4, Inr v) \<Rightarrow> (checkout_events w r n h @ e2 @ e3 @ e4, Inr True))
           else (checkout_events w r n h @ e2 @ e3, Inr True)))"
proof (cases "path_exists w (h @ [Print (StartingWorkflow n)]) (''./'' @ n)")
  case True
  then show ?thesis
    by (simp add: auto_workflow_update_and_deploy_def checkout_events_def Let_def
        split: prod.split sum.split)
next
  case False
  with assms have c: "returncode (run w (h @ [Print (StartingWorkflow n)]) (clone_cmd r n) []) = 0"
    by (simp add: copy_obtained_def)
  from False c show ?thesis
    by (simp add: auto_workflow_update_and_deploy_def checkout_events_def clone_result Let_def
        split: prod.split sum.split)
qed

lemma workflow_write_failed:
  assumes "copy_obtained w r n h" and "\<not> files_written w r n fs h"
  shows "auto_workflow_update_and_deploy w r n fs h =
           (checkout_events w r n h
              @ fst (write_files w (''./'' @ n) fs (h @ checkout_events w r n h)),
            Inl OSError)"
proof -
  obtain e2 x where wf: "write_files w (''./'' @ n) fs (h @ checkout_events w r n h) = (e2, x)"
    by (cases "write_files w (''./'' @ n) fs (h @ checkout_events w r n h)")
  from write_files_shape[OF wf] assms(2) wf have "x = Inl OSError"
    by (auto simp: files_written_def)
  with wf show ?thesis by (simp add: workflow_checkout[OF assms(1)])
qed

lemma workflow_with_copy:
  assumes "copy_obtained w r n h" and "files_written w r n fs h"
  shows "auto_workflow_update_and_deploy w r n fs h =
           (if auto_deploy r \<noteq> Some False then
              (case trigger_all_deployments w r n (h @ workflow_prefix w r n fs h) of
                 (e4, Inl x) \<Rightarrow> (workflow_prefix w r n fs h @ e4, Inl x)
               | (e4, Inr v) \<Rightarrow> (workflow_prefix w r n fs h @ e4, Inr True))
            else (workflow_prefix w r n fs h, Inr True))"
proof -
  obtain e2 x where wf: "write_files w (''./'' @ n) fs (h @ checkout_events w r n h) = (e2, x)"
    by (cases "write_files w (''./'' @ n) fs (h @ checkout_events w r n h)")
  from assms(2) wf have "x = Inr ()" by (simp add: files_written_def)
  with wf show ?thesis
    by (simp add: workflow_checkout[OF assms(1)] workflow_prefix_def Let_def
        split: prod.split sum.split)
qed

lemma prefix_shape:
  "\<exists>rest. workflow_prefix w r n fs h = checkout_events w r n h @ rest
      \<and> list_all (\<lambda>e. file_event e \<or> commit_cycle_event e) rest"
proof -
  let ?e1 = "checkout_events w r n h"
  obtain e2 x where wf: "write_files w (''./'' @ n) fs (h @ ?e1) = (e2, x)"
    by (cases "write_files w (''./'' @ n) fs (h @ ?e1)")
  let ?e3 = "commit_and_push w r (''./'' @ n) (Some (AutoUpdate (length fs))) [] [] (h @ ?e1 @ e2)"
  from write_files_shape[OF wf] have f: "list_all file_event e2" by simp
  have "list_all (\<lambda>e. file_event e \<or> commit_cycle_event e) (e2 @ ?e3)"
    using list_all_mono[OF f, of "\<lambda>e. file_event e \<or> commit_cycle_event e"]
          list_all_mono[OF commit_and_push_events[of w r "''./'' @ n"
              "Some (AutoUpdate (length fs))" "[]" "[]" "h @ ?e1 @ e2"],
            of "\<lambda>e. file_event e \<or> commit_cycle_event e"]
    by simp
  moreover have "workflow_prefix w r n fs h = ?e1 @ (e2 @ ?e3)"
    using wf by (simp add: workflow_prefix_def Let_def)
  ultimately show ?thesis by blast
qed

lemma checkout_shape:
  "\<not> list_ex deploy_event (checkout_events w r n h)"
  "list_all unbounded_wait (checkout_events w r n h)"
  by (simp_all add: checkout_events_def)

lemma prefix_no_deploy:
  "\<not> list_ex deploy_event (workflow_prefix w r n fs h)"
  "list_all unbounded_wait (workflow_prefix w r n fs h)"
proof -
  obtain rest where p: "workflow_prefix w r n fs h = checkout_events w r n h @ rest"
    and q: "list_all (\<lambda>e. file_event e \<or> commit_cycle_event e) rest"
    using prefix_shape[of w r n fs h] by blast
  have a: "list_all (\<lambda>e. \<not> deploy_event e) rest"
    using list_all_mono[OF q, of "\<lambda>e. \<not> deploy_event e"] not_deploy by blast
  have b: "list_all unbounded_wait rest"
    using list_all_mono[OF q, of unbounded_wait] by (metis unbounded_ok)
  show "\<not> list_ex deploy_event (workflow_prefix w r n fs h)"
    using a checkout_shape(1)[of w r n h] by (auto simp: p list_ex_iff list_all_iff)
  show "list_all unbounded_wait (workflow_prefix w r n fs h)"
    using b checkout_shape(2)[of w r n h] by (simp add: p)
qed

lemmas workflow_run = auto_workflow_update_and_deploy_def clone_repository_def
  commit_and_push_def ensure_git_identity_def strip_def utf8_chars_def path_join_def
  dirname_def startswith_def copy_obtained_def clone_cmd_def checkout_events_def
  files_written_def

lemma workflow_rest:
  assumes "copy_obtained w r n h"
  shows "\<exists>rest. fst (auto_workflow_update_and_deploy w r n fs h) = checkout_events w r n h @ rest
           \<and> list_all (\<lambda>e. file_event e \<or> commit_cycle_event e \<or> deploy_event e) rest"
proof (cases "files_written w r n fs h")
  case False
  obtain e2 x where wf: "write_files w (''./'' @ n) fs (h @ checkout_events w r n h) = (e2, x)"
    by (cases "write_files w (''./'' @ n) fs (h @ checkout_events w r n h)")
  from write_files_shape[OF wf] have "list_all file_event e2" by simp
  then have "list_all (\<lambda>e. file_event e \<or> commit_cycle_event e \<or> deploy_event e) e2"
    by (rule list_all_mono) simp
  with wf show ?thesis by (simp add: workflow_write_failed[OF assms False])
next
  case True
  obtain rest where p: "workflow_prefix w r n fs h = checkout_events w r n h @ rest"
    and q: "list_all (\<lambda>e. file_event e \<or> commit_cycle_event e) rest"
    using prefix_shape[of w r n fs h] by blast
  obtain e4 y where t: "trigger_all_deployments w r n (h @ workflow_prefix w r n fs h) = (e4, y)"
    by (cases "trigger_all_deployments w r n (h @ workflow_prefix w r n fs h)")
  from fan_out_shape[OF t] have d: "list_all deploy_event e4" by simp
  have f: "fst (auto_workflow_update_and_deploy w r n fs h) =
          checkout_events w r n h @ rest @ (if auto_deploy r \<noteq> Some False then e4 else [])"
    using t p by (simp add: workflow_with_copy[OF assms True] split: sum.split)
  have q': "list_all (\<lambda>e. file_event e \<or> commit_cycle_event e \<or> deploy_event e) rest"
    using q by (rule list_all_mono) blast
  have d': "list_all (\<lambda>e. file_event e \<or> commit_cycle_event e \<or> deploy_event e) e4"
    using d by (rule list_all_mono) blast
  have "list_all (\<lambda>e. file_event e \<or> commit_cycle_event e \<or> deploy_event e)
          (rest @ (if auto_deploy r \<noteq> Some False then e4 else []))"
    using q' d' by simp
  with f show ?thesis by blast
qed

text \<open>
  C8. When the local directory does not exist, the first effect of the sequencer after
  its opening message is the clone request, and no other clone request follows: one
  clone is attempted, before any file is written. If the clone fails (non-zero return
  code), the only further event is the failure message, so no file is written and no
  commit attempted, and the result is \<open>False\<close>.
\<close>

theorem clone_before_any_write:
  assumes "\<not> path_exists w (h @ [Print (StartingWorkflow n)]) (''./'' @ n)"
  shows "\<exists>rest. fst (auto_workflow_update_and_deploy w r n fs h) =
             Print (StartingWorkflow n) # Git (clone_cmd r n) [] # rest
         \<and> \<not> list_ex is_clone rest
         \<and> (returncode (run w (h @ [Print (StartingWorkflow n)]) (clone_cmd r n) []) \<noteq> 0
              \<longrightarrow> rest = [Print (CloneFailed n)]
                  \<and> \<not> list_ex is_write (fst (auto_workflow_update_and_deploy w r n fs h))
                  \<and> \<not> list_ex is_commit (fst (auto_workflow_update_and_deploy w r n fs h))
                  \<and> snd (auto_workflow_update_and_deploy w r n fs h) = Inr False)"
proof (cases "copy_obtained w r n h")
  case False
  from workflow_clone_failed[OF False, of fs] show ?thesis by (simp add: clone_cmd_def)
next
  case True
  with assms have c: "returncode (run w (h @ [Print (StartingWorkflow n)]) (clone_cmd r n) []) = 0"
    by (simp add: copy_obtained_def)
  obtain rest where p: "fst (auto_workflow_update_and_deploy w r n fs h)
                          = checkout_events w r n h @ rest"
    and q: "list_all (\<lambda>e. file_event e \<or> commit_cycle_event e \<or> deploy_event e) rest"
    using workflow_rest[OF True, of fs] by blast
  have nc: "\<not> list_ex is_clone rest"
    using q not_clone by (auto simp: list_ex_iff list_all_iff)
  have "fst (auto_workflow_update_and_deploy w r n fs h) =
          Print (StartingWorkflow n) # Git (clone_cmd r n) [] # (Print (Cloned (''./'' @ n)) # rest)"
    using p assms by (simp add: checkout_events_def)
  moreover have "\<not> list_ex is_clone (Print (Cloned (''./'' @ n)) # rest)"
    using nc by simp
  ultimately show ?thesis using c by blast
qed

theorem clone_before_any_write_witness:
  "\<not> path_exists (steady_world TransportError 1 0 False) ([] @ [Print (StartingWorkflow ''app'')])
       (''./'' @ ''app'')
   \<and> auto_workflow_update_and_deploy (steady_world TransportError 1 0 False) default_config
        ''app'' [(''a.txt'', Text ''x'')] [] =
       ([Print (StartingWorkflow ''app''),
         Git (Clone ''https://github.com/your_github_username/app.git'' ''./app'') [],
         Print (CloneFailed ''app'')], Inr False)"
  using clone_before_any_write[of "steady_world TransportError 1 0 False" "[]" "''app''"
          default_config "[(''a.txt'', Text ''x'')]"]
  by (simp add: workflow_run steady_world_def default_config_def Let_def)




text \<open>
  C10. The claim: with a working copy the sequencer returns \<open>True\<close> whatever the
  commit, the push and the deployment triggers do. The code at that input: the working
  copy exists, the file is written, and the Render request meets a transport error,
  which the Render adapter does not catch; the exception leaves the sequencer, and no
  value is returned.
\<close>

theorem render_error_escapes_workflow:
  "copy_obtained (steady_world TransportError 0 0 True) all_enabled ''app'' []
   \<and> files_written (steady_world TransportError 0 0 True) all_enabled ''app''
        [(''a.txt'', Text ''x'')] []
   \<and> snd (auto_workflow_update_and_deploy (steady_world TransportError 0 0 True) all_enabled
             ''app'' [(''a.txt'', Text ''x'')] []) = Inl RequestException"
  by (simp add: workflow_run fan_out_run)

section \<open>The repository improvement planner\<close>




section \<open>The access token\<close>

text \<open>
  C5. The claim: without a token no provider request is attempted, in particular not
  the content listing of the planner. The code at that input: \<^verbatim>\<open>analyze_repository\<close>
  has no check of the token, and with no token configured it sends the request, with
  an empty \<^verbatim>\<open>Authorization\<close> header.
\<close>

theorem listing_requested_without_token:
  "github_token default_config = []
   \<and> analyze_repository (steady_world (Response (plain_response 401)) 0 0 True) default_config
        ''app'' [] =
       ([Http \<lparr>meth = GET,
               url = ''https://api.github.com/repos/your_github_username/app/contents'',
               headers = [(''Authorization'', []),
                          (''Accept'', ''application/vnd.github.v3+json'')],
               timeout = None\<rparr>,
         Print (AnalyzeFailed (plain_response 401))],
        Inr None)"
  by (simp add: analyze_repository_def steady_world_def default_config_def base_headers_def
      plain_response_def Let_def)

text \<open>The other provider operations do check the token before any request.\<close>

lemma token_checked_by_siblings:
  assumes "github_token r = []"
  shows "create_repository w r n h = ([], Inl ValueError)"
    and "create_pull_request w r n h = ([], Inl ValueError)"
    and "merge_pull_request w r n k h = ([], Inl ValueError)"
    and "check_deployment_status w r n h = ([], Inr None)"
    and "health_check_all_repos w r h = ([Print HealthCheckSkipped], Inr [])"
    and "fst (get_default_branch w r n h) = []"
    and "auto_pr_review w r n k h = ([], Inl ValueError)"
  using assms
  by (simp_all add: create_repository_def create_pull_request_def merge_pull_request_def
      check_deployment_status_def health_check_all_repos_def get_default_branch_def
      auto_pr_review_def)

section \<open>The batch runner\<close>

text \<open>
  The list of outcomes built so far is only extended by the loop: the batch over a list
  can be read from the loop started with no outcome.
\<close>

lemma batch_loop_acc:
  "batch_loop w r op fs ns results h =
     (case batch_loop w r op fs ns [] h of
        (e, Inl x) \<Rightarrow> (e, Inl x)
      | (e, Inr rs) \<Rightarrow> (e, Inr (results @ rs)))"
proof (induction ns arbitrary: results h)
  case Nil
  show ?case by simp
next
  case (Cons n ns)
  obtain e1 x1 where o: "run_operation w r op fs n (h @ [Print (Processing n)]) = (e1, x1)"
    by (cases "run_operation w r op fs n (h @ [Print (Processing n)])")
  show ?case
  proof (cases x1)
    case (Inl ex)
    with o show ?thesis by simp
  next
    case (Inr ok)
    let ?h = "h @ Print (Processing n) # e1 @ [Sleep]"
    obtain e2 y where l: "batch_loop w r op fs ns [] ?h = (e2, y)"
      by (cases "batch_loop w r op fs ns [] ?h")
    have a: "batch_loop w r op fs ns (results @ [(n, ok)]) ?h =
               (case y of Inl x \<Rightarrow> (e2, Inl x) | Inr rs \<Rightarrow> (e2, Inr ((results @ [(n, ok)]) @ rs)))"
      using Cons.IH[of "results @ [(n, ok)]" ?h] l by (simp split: sum.split)
    have b: "batch_loop w r op fs ns [(n, ok)] ?h =
               (case y of Inl x \<Rightarrow> (e2, Inl x) | Inr rs \<Rightarrow> (e2, Inr ([(n, ok)] @ rs)))"
      using Cons.IH[of "[(n, ok)]" ?h] l by (simp split: sum.split)
    show ?thesis
      using o Inr a b by (simp split: sum.split)
  qed
qed

text \<open>The batch over one repository, and over a list cut in two.\<close>

lemma batch_single:
  "batch_repository_operation w r [n] op fs h =
     (case run_operation w r op fs n (h @ [Print (Processing n)]) of
        (e1, Inl x) \<Rightarrow> (Print (Processing n) # e1, Inl x)
      | (e1, Inr ok) \<Rightarrow> (Print (Processing n) # e1 @ [Sleep], Inr [(n, ok)]))"
  by (simp add: batch_repository_operation_def split: prod.split sum.split)

lemma batch_append:
  "batch_repository_operation w r (xs @ ys) op fs h =
     (case batch_repository_operation w r xs op fs h of
        (e, Inl x) \<Rightarrow> (e, Inl x)
      | (e, Inr rs) \<Rightarrow>
          (case batch_repository_operation w r ys op fs (h @ e) of
             (e', Inl x) \<Rightarrow> (e @ e', Inl x)
           | (e', Inr rs') \<Rightarrow> (e @ e', Inr (rs @ rs'))))"
proof (induction xs arbitrary: h)
  case Nil
  show ?case by (simp add: batch_repository_operation_def split: prod.split sum.split)
next
  case (Cons n xs)
  obtain e1 x1 where o: "run_operation w r op fs n (h @ [Print (Processing n)]) = (e1, x1)"
    by (cases "run_operation w r op fs n (h @ [Print (Processing n)])")
  show ?case
  proof (cases x1)
    case (Inl ex)
    with o show ?thesis by (simp add: batch_repository_operation_def)
  next
    case (Inr ok)
    let ?h = "h @ Print (Processing n) # e1 @ [Sleep]"
    have acc: "batch_loop w r op fs zs [(n, ok)] ?h =
       (case batch_loop w r op fs zs [] ?h of
          (e, Inl x) \<Rightarrow> (e, Inl x) | (e, Inr rs) \<Rightarrow> (e, Inr ((n, ok) # rs)))" for zs
      by (simp add: batch_loop_acc[of w r op fs zs "[(n, ok)]" ?h] split: prod.split sum.split)
    obtain e2 y2 where l: "batch_loop w r op fs xs [] ?h = (e2, y2)"
      by (cases "batch_loop w r op fs xs [] ?h")
    obtain e3 y3 where m: "batch_loop w r op fs ys [] (?h @ e2) = (e3, y3)"
      by (cases "batch_loop w r op fs ys [] (?h @ e2)")
    have ih: "batch_loop w r op fs (xs @ ys) [] ?h =
       (case y2 of Inl x \<Rightarrow> (e2, Inl x)
        | Inr rs \<Rightarrow> (case y3 of Inl x \<Rightarrow> (e2 @ e3, Inl x) | Inr rs' \<Rightarrow> (e2 @ e3, Inr (rs @ rs'))))"
      using Cons.IH[of ?h] l m by (simp add: batch_repository_operation_def split: sum.split)
    show ?thesis
      using o Inr l m ih acc[of "xs @ ys"] acc[of xs]
      by (simp add: batch_repository_operation_def split: sum.split)
  qed
qed

text \<open>
  One more repository: when the batch over the first \<open>i\<close> repositories returns and the
  operation of the next one returns, the batch over \<open>i + 1\<close> repositories adds the
  announcement, the events of the operation and the pause, and one outcome.
\<close>

lemma batch_take_step:
  assumes "i < length repos"
    and "batch_repository_operation w r (take i repos) op fs h = (e, Inr rs)"
    and "run_operation w r op fs (repos ! i) (h @ e @ [Print (Processing (repos ! i))]) = (e1, Inr ok)"
  shows "batch_repository_operation w r (take (Suc i) repos) op fs h =
           (e @ Print (Processing (repos ! i)) # e1 @ [Sleep], Inr (rs @ [(repos ! i, ok)]))"
proof -
  have t: "take (Suc i) repos = take i repos @ [repos ! i]"
    using assms(1) by (rule take_Suc_conv_app_nth)
  have s: "batch_repository_operation w r [repos ! i] op fs (h @ e) =
             (Print (Processing (repos ! i)) # e1 @ [Sleep], Inr [(repos ! i, ok)])"
    using assms(3) by (simp add: batch_single)
  show ?thesis
    by (simp add: t batch_append[of w r "take i repos" "[repos ! i]" op fs h] assms(2) s)
qed

lemma batch_prefix_outcomes:
  assumes "k \<le> length repos"
    and "\<forall>i < k. \<exists>ok. snd (run_operation w r op fs (repos ! i)
                              (item_history w r repos op fs h i)) = Inr ok"
  shows "\<exists>rs. snd (batch_repository_operation w r (take k repos) op fs h) = Inr rs
           \<and> map fst rs = take k repos
           \<and> (\<forall>i < k. snd (run_operation w r op fs (repos ! i)
                              (item_history w r repos op fs h i)) = Inr (snd (rs ! i)))"
  using assms
proof (induction k)
  case 0
  show ?case by (simp add: batch_repository_operation_def)
next
  case (Suc k)
  from Suc.prems have k: "k < length repos" by simp
  from Suc.IH Suc.prems obtain rs where
    b: "snd (batch_repository_operation w r (take k repos) op fs h) = Inr rs"
    and m: "map fst rs = take k repos"
    and f: "\<forall>i < k. snd (run_operation w r op fs (repos ! i)
                          (item_history w r repos op fs h i)) = Inr (snd (rs ! i))"
    by auto
  obtain e where be: "batch_repository_operation w r (take k repos) op fs h = (e, Inr rs)"
    using b by (cases "batch_repository_operation w r (take k repos) op fs h") simp
  have ih: "item_history w r repos op fs h k = h @ e @ [Print (Processing (repos ! k))]"
    by (simp add: item_history_def be)
  from Suc.prems(2) obtain ok where
    o: "snd (run_operation w r op fs (repos ! k) (item_history w r repos op fs h k)) = Inr ok"
    by auto
  obtain e1 where oe:
    "run_operation w r op fs (repos ! k) (h @ e @ [Print (Processing (repos ! k))]) = (e1, Inr ok)"
    using o ih
    by (cases "run_operation w r op fs (repos ! k) (h @ e @ [Print (Processing (repos ! k))])") simp
  have st: "batch_repository_operation w r (take (Suc k) repos) op fs h =
           (e @ Print (Processing (repos ! k)) # e1 @ [Sleep], Inr (rs @ [(repos ! k, ok)]))"
    using k be oe by (rule batch_take_step)
  have len: "length rs = k"
    using m k by (metis length_map length_take min.absorb2 less_imp_le)
  have a1: "snd (batch_repository_operation w r (take (Suc k) repos) op fs h)
              = Inr (rs @ [(repos ! k, ok)])"
    by (simp add: st)
  have a2: "map fst (rs @ [(repos ! k, ok)]) = take (Suc k) repos"
    using m k by (simp add: take_Suc_conv_app_nth)
  have a3: "snd (run_operation w r op fs (repos ! i) (item_history w r repos op fs h i))
              = Inr (snd ((rs @ [(repos ! k, ok)]) ! i))" if "i < Suc k" for i
  proof (cases "i = k")
    case True
    with o len show ?thesis by (simp add: nth_append)
  next
    case False
    with that have "i < k" by simp
    with f len show ?thesis by (simp add: nth_append)
  qed
  from a1 a2 a3 show ?case by blast
qed

text \<open>
  When every directory and file can be written the loop over the files ends normally;
  with the default configuration (no platform enabled), a local directory and a
  listing answered with 200, the planner returns \<open>True\<close>.
\<close>

lemma write_files_succeed:
  assumes "\<forall>h' p. makedirs_ok w h' p" and "\<forall>h' p c. write_ok w h' p c"
  shows "snd (write_files w p fs h) = Inr ()"
  using assms
proof (induction fs arbitrary: h)
  case Nil
  show ?case by simp
next
  case (Cons f fs)
  obtain fp c where f: "f = (fp, c)" by (cases f)
  let ?step = "[MakeDirs (dirname (path_join p fp)), WriteFile (path_join p fp) c,
                Print (UpdatedFile fp)]"
  obtain es y where r: "write_files w p fs (h @ ?step) = (es, y)"
    by (cases "write_files w p fs (h @ ?step)")
  from Cons.IH[of "h @ ?step"] Cons.prems r have "y = Inr ()" by simp
  with Cons.prems f r show ?case by (simp add: Let_def)
qed

lemma improve_default_returns:
  assumes "\<forall>h' p. makedirs_ok w h' p" and "\<forall>h' p c. write_ok w h' p c"
    and "\<forall>h'. http w h'
            \<lparr>meth = GET,
             url = ''https://api.github.com/repos/'' @ github_username default_config @ ''/'' @ n
                     @ ''/contents'',
             headers = base_headers default_config, timeout = None\<rparr>
           = Response (plain_response 200)"
    and "\<forall>h' p. path_exists w h' p"
  shows "snd (auto_improve_repository w default_config n h) = Inr True"
proof -
  obtain e0 x0 where a: "analyze_repository w default_config n h = (e0, x0)"
    by (cases "analyze_repository w default_config n h")
  then obtain an where x0: "x0 = Inr (Some an)"
    using assms(3) by (auto simp: analyze_repository_def Let_def plain_response_def)
  have c: "copy_obtained w default_config n (h @ e0)"
    using assms(4) by (simp add: copy_obtained_def)
  have f: "files_written w default_config n (improvements n an) (h @ e0)"
    using write_files_succeed[OF assms(1,2)] by (simp add: files_written_def)
  have d: "\<not> enabled (platform default_config ''render'')"
    by (simp add: default_config_def platform_def)
  have t: "snd (trigger_all_deployments w default_config n h') = Inr None" for h'
    using fan_out_returns[of default_config w n h'] d by simp
  have i: "improvements n an \<noteq> []"
    by (simp add: improvements_def Let_def)
  obtain e1 x1 where wf:
    "auto_workflow_update_and_deploy w default_config n (improvements n an) (h @ e0) = (e1, x1)"
    by (cases "auto_workflow_update_and_deploy w default_config n (improvements n an) (h @ e0)")
  have "\<exists>v. x1 = Inr v"
    using wf t[of "h @ e0 @ workflow_prefix w default_config n (improvements n an) (h @ e0)"]
    by (cases "trigger_all_deployments w default_config n
                 (h @ e0 @ workflow_prefix w default_config n (improvements n an) (h @ e0))")
       (auto simp: workflow_with_copy[OF c f] split: if_splits)
  then obtain v where x1: "x1 = Inr v" by blast
  show ?thesis
    using a x0 i wf x1 by (simp add: auto_improve_repository_def Let_def)
qed

text \<open>
  C1, as stated, fails: there is no handler in the batch runner. When the listing of
  the first repository meets a transport error, the exception leaves the batch: no
  outcome is recorded for it and the second repository is never processed.
\<close>

theorem batch_stops_at_exception:
  "batch_repository_operation (steady_world TransportError 0 0 True) default_config
      [''r1'', ''r2''] ''improve'' [] [] =
     ([Print (Processing ''r1''),
       Http \<lparr>meth = GET,
             url = ''https://api.github.com/repos/your_github_username/r1/contents'',
             headers = [(''Authorization'', []),
                        (''Accept'', ''application/vnd.github.v3+json'')],
             timeout = None\<rparr>],
      Inl RequestException)"
  by (simp add: batch_repository_operation_def run_operation_def auto_improve_repository_def
      analyze_repository_def steady_world_def default_config_def base_headers_def Let_def)

text \<open>
  C1, amended. The operation of the \<open>i\<close>-th repository runs at the history made of the
  events of the batch over the repositories before it and of its announcement. If
  none of these operations raises, the batch returns one outcome per repository, in
  the order of the input; the flag at position \<open>i\<close> is the value that the operation of
  the \<open>i\<close>-th repository returned in this run, and the events of the batch over the
  first \<open>i + 1\<close> repositories are those over the first \<open>i\<close>, the announcement, the
  events of that operation and the pause: every repository is processed, also after
  one whose operation returned \<open>False\<close>.
\<close>

theorem batch_outcomes_in_order:
  assumes "\<forall>i < length repos. \<exists>ok.
             snd (run_operation w r op fs (repos ! i) (item_history w r repos op fs h i)) = Inr ok"
  shows "\<exists>results. snd (batch_repository_operation w r repos op fs h) = Inr results
           \<and> map fst results = repos
           \<and> (\<forall>i < length repos.
                 snd (run_operation w r op fs (repos ! i) (item_history w r repos op fs h i))
                   = Inr (snd (results ! i))
                 \<and> fst (batch_repository_operation w r (take (Suc i) repos) op fs h) =
                     fst (batch_repository_operation w r (take i repos) op fs h)
                       @ Print (Processing (repos ! i))
                       # fst (run_operation w r op fs (repos ! i)
                                (item_history w r repos op fs h i))
                       @ [Sleep])"
proof -
  obtain results where
    a: "snd (batch_repository_operation w r repos op fs h) = Inr results"
    and b: "map fst results = repos"
    and c: "\<forall>i < length repos.
              snd (run_operation w r op fs (repos ! i) (item_history w r repos op fs h i))
                = Inr (snd (results ! i))"
    using batch_prefix_outcomes[of "length repos" repos w r op fs h] assms by auto
  have d: "fst (batch_repository_operation w r (take (Suc i) repos) op fs h) =
             fst (batch_repository_operation w r (take i repos) op fs h)
               @ Print (Processing (repos ! i))
               # fst (run_operation w r op fs (repos ! i) (item_history w r repos op fs h i))
               @ [Sleep]" if i: "i < length repos" for i
  proof -
    from i assms have "\<forall>j < i. \<exists>ok.
        snd (run_operation w r op fs (repos ! j) (item_history w r repos op fs h j)) = Inr ok"
      by simp
    with i obtain rs where
      p: "snd (batch_repository_operation w r (take i repos) op fs h) = Inr rs"
      using batch_prefix_outcomes[of i repos w r op fs h] by auto
    obtain e where be: "batch_repository_operation w r (take i repos) op fs h = (e, Inr rs)"
      using p by (cases "batch_repository_operation w r (take i repos) op fs h") simp
    have ih: "item_history w r repos op fs h i = h @ e @ [Print (Processing (repos ! i))]"
      by (simp add: item_history_def be)
    from c i have
      "snd (run_operation w r op fs (repos ! i) (item_history w r repos op fs h i))
         = Inr (snd (results ! i))"
      by blast
    then have
      "snd (run_operation w r op fs (repos ! i) (h @ e @ [Print (Processing (repos ! i))]))
         = Inr (snd (results ! i))"
      by (simp only: ih)
    then obtain e1 where oe:
      "run_operation w r op fs (repos ! i) (h @ e @ [Print (Processing (repos ! i))])
         = (e1, Inr (snd (results ! i)))"
      by (cases "run_operation w r op fs (repos ! i) (h @ e @ [Print (Processing (repos ! i))])")
         simp
    from batch_take_step[OF i be oe] show ?thesis
      by (simp add: be ih oe)
  qed
  from a b c d show ?thesis by blast
qed

lemmas batch_run = run_operation_def auto_improve_repository_def
  analyze_repository_def base_headers_def improvements_def generate_readme_def
  generate_gitignore_def generate_github_actions_workflow_def

theorem batch_outcomes_in_order_witness:
  "snd (batch_repository_operation second_listing_fails default_config
          [''r1'', ''r2'', ''r3''] ''improve'' [] []) =
     Inr [(''r1'', True), (''r2'', False), (''r3'', True)]"
proof -
  define repos where "repos = [''r1'', ''r2'', ''r3'']"
  define op where "op = ''improve''"
  let ?hist = "item_history second_listing_fails default_config repos op [] []"
  have r1: "snd (run_operation second_listing_fails default_config op [] ''r1'' h')
              = Inr True" for h'
    by (simp add: run_operation_def op_def)
       (rule improve_default_returns;
        simp add: second_listing_fails_def default_config_def)
  have r2: "snd (run_operation second_listing_fails default_config op [] ''r2'' h')
              = Inr False" for h'
    by (simp add: batch_run op_def second_listing_fails_def default_config_def
        plain_response_def)
  have r3: "snd (run_operation second_listing_fails default_config op [] ''r3'' h')
              = Inr True" for h'
    by (simp add: run_operation_def op_def)
       (rule improve_default_returns;
        simp add: second_listing_fails_def default_config_def)
  have len: "length repos = Suc (Suc (Suc 0))"
    and n0: "repos ! 0 = ''r1''" and n1: "repos ! Suc 0 = ''r2''"
    and n2: "repos ! Suc (Suc 0) = ''r3''"
    by (simp_all add: repos_def)
  have hyp: "\<forall>i < length repos. \<exists>ok.
      snd (run_operation second_listing_fails default_config op [] (repos ! i) (?hist i))
        = Inr ok"
  proof (intro allI impI)
    fix i
    assume "i < length repos"
    then have "i = 0 \<or> i = Suc 0 \<or> i = Suc (Suc 0)" by (auto simp: len)
    then show "\<exists>ok. snd (run_operation second_listing_fails default_config op []
                           (repos ! i) (?hist i)) = Inr ok"
      using r1[of "?hist 0"] r2[of "?hist (Suc 0)"] r3[of "?hist (Suc (Suc 0))"]
      by (auto simp: n0 n1 n2)
  qed
  obtain results where
    a: "snd (batch_repository_operation second_listing_fails default_config repos op [] [])
          = Inr results"
    and b: "map fst results = repos"
    and c: "\<forall>i < length repos.
              snd (run_operation second_listing_fails default_config op [] (repos ! i)
                     (?hist i)) = Inr (snd (results ! i))"
    using batch_outcomes_in_order[OF hyp] by blast
  from b obtain x y z where xyz: "results = [x, y, z]"
    and f: "fst x = ''r1''" "fst y = ''r2''" "fst z = ''r3''"
    by (auto simp: repos_def map_eq_Cons_conv)
  from c len have "snd (run_operation second_listing_fails default_config op [] (repos ! 0)
                     (?hist 0)) = Inr (snd (results ! 0))" by simp
  with r1[of "?hist 0"] xyz have sx: "snd x = True" by (simp add: n0)
  from c len have "snd (run_operation second_listing_fails default_config op []
                     (repos ! Suc 0) (?hist (Suc 0))) = Inr (snd (results ! Suc 0))" by simp
  with r2[of "?hist (Suc 0)"] xyz have sy: "snd y = False" by (simp add: n1)
  from c len have "snd (run_operation second_listing_fails default_config op []
                     (repos ! Suc (Suc 0)) (?hist (Suc (Suc 0))))
                 = Inr (snd (results ! Suc (Suc 0)))" by simp
  with r3[of "?hist (Suc (Suc 0))"] xyz have sz: "snd z = True" by (simp add: n2)
  have "results = [(''r1'', True), (''r2'', False), (''r3'', True)]"
    using xyz f sx sy sz by (simp add: prod_eq_iff)
  with a show ?thesis by (simp add: repos_def op_def)
qed

section \<open>Waiting for the collaborators\<close>

text \<open>
  No request of the listing, of the loop over the files, of the fan-out, of the
  sequencer, of the planner or of one batch step carries a bound on the wait.
\<close>

lemma analyze_unbounded:
  "list_all unbounded_wait (fst (analyze_repository w r n h))"
  by (auto simp: analyze_repository_def Let_def split: http_outcome.split)

lemma write_files_unbounded:
  "list_all unbounded_wait (fst (write_files w p fs h))"
proof -
  obtain e x where wf: "write_files w p fs h = (e, x)" by (cases "write_files w p fs h")
  from write_files_shape[OF wf] have "list_all file_event e" by simp
  then have "list_all unbounded_wait e"
    by (rule list_all_mono) (simp add: unbounded_ok)
  with wf show ?thesis by simp
qed

lemma fan_out_unbounded:
  "list_all unbounded_wait (fst (trigger_all_deployments w r n h))"
proof -
  obtain e y where t: "trigger_all_deployments w r n h = (e, y)"
    by (cases "trigger_all_deployments w r n h")
  from fan_out_shape[OF t] have "list_all unbounded_wait e" by simp
  with t show ?thesis by simp
qed

lemma workflow_unbounded:
  "list_all unbounded_wait (fst (auto_workflow_update_and_deploy w r n fs h))"
proof (cases "copy_obtained w r n h")
  case False
  from workflow_clone_failed[OF False, of fs] show ?thesis by simp
next
  case True
  show ?thesis
  proof (cases "files_written w r n fs h")
    case False
    from workflow_write_failed[OF True False] show ?thesis
      by (simp add: checkout_shape(2) write_files_unbounded)
  next
    case f: True
    obtain e4 y where t: "trigger_all_deployments w r n (h @ workflow_prefix w r n fs h) = (e4, y)"
      by (cases "trigger_all_deployments w r n (h @ workflow_prefix w r n fs h)")
    have u: "list_all unbounded_wait e4"
      using fan_out_unbounded[of w r n "h @ workflow_prefix w r n fs h"] t by simp
    show ?thesis
      using t u prefix_no_deploy(2)[of w r n fs h]
      by (auto simp: workflow_with_copy[OF True f] split: sum.splits)
  qed
qed

lemma improve_unbounded:
  "list_all unbounded_wait (fst (auto_improve_repository w r n h))"
proof -
  obtain e0 x0 where a: "analyze_repository w r n h = (e0, x0)"
    by (cases "analyze_repository w r n h")
  from analyze_unbounded[of w r n h] a have u0: "list_all unbounded_wait e0" by simp
  show ?thesis
  proof (cases x0)
    case (Inl ex)
    with a u0 show ?thesis by (simp add: auto_improve_repository_def)
  next
    case (Inr v)
    show ?thesis
    proof (cases v)
      case None
      with Inr a u0 show ?thesis by (simp add: auto_improve_repository_def)
    next
      case (Some an)
      obtain e1 x1 where b:
        "auto_workflow_update_and_deploy w r n (improvements n an) (h @ e0) = (e1, x1)"
        by (cases "auto_workflow_update_and_deploy w r n (improvements n an) (h @ e0)")
      from workflow_unbounded[of w r n "improvements n an" "h @ e0"] b
      have u1: "list_all unbounded_wait e1" by simp
      show ?thesis
        using Some Inr a b u0 u1
        by (auto simp: auto_improve_repository_def Let_def split: sum.splits)
    qed
  qed
qed

lemma operation_unbounded:
  "list_all unbounded_wait (fst (run_operation w r op fs n h))"
proof -
  obtain e y where t: "trigger_all_deployments w r n h = (e, y)"
    by (cases "trigger_all_deployments w r n h")
  have u: "list_all unbounded_wait e"
    using fan_out_unbounded[of w r n h] t by simp
  show ?thesis
    using workflow_unbounded[of w r n fs h] improve_unbounded[of w r n h] t u
    by (auto simp: run_operation_def split: sum.splits)
qed

lemma batch_loop_unbounded:
  "list_all unbounded_wait (fst (batch_loop w r op fs repos results h))"
proof (induction repos arbitrary: results h)
  case Nil
  show ?case by simp
next
  case (Cons n repos)
  obtain e1 x1 where o: "run_operation w r op fs n (h @ [Print (Processing n)]) = (e1, x1)"
    by (cases "run_operation w r op fs n (h @ [Print (Processing n)])")
  from operation_unbounded[of w r op fs n "h @ [Print (Processing n)]"] o
  have u: "list_all unbounded_wait e1" by simp
  show ?case
  proof (cases x1)
    case (Inl ex)
    with o u show ?thesis by simp
  next
    case (Inr ok)
    obtain e2 y2 where l: "batch_loop w r op fs repos (results @ [(n, ok)])
                  (h @ Print (Processing n) # e1 @ [Sleep]) = (e2, y2)"
      by (cases "batch_loop w r op fs repos (results @ [(n, ok)])
                  (h @ Print (Processing n) # e1 @ [Sleep])")
    from Cons.IH[of "results @ [(n, ok)]" "h @ Print (Processing n) # e1 @ [Sleep]"] l
    have "list_all unbounded_wait e2" by simp
    with o u Inr l show ?thesis by simp
  qed
qed

text \<open>
  C6, as stated, fails: the request of the Vercel adapter is made without a timeout,
  as every request of the source is.
\<close>

theorem hook_request_without_timeout:
  "deploy_to_vercel (steady_world (Response (plain_response 200)) 0 0 True) all_enabled
      ''app'' [] =
     ([Http \<lparr>meth = POST, url = ''https://v.example/hook'', headers = [], timeout = None\<rparr>,
       Print VercelTriggered],
      Inr True)
   \<and> \<not> list_all bounded_wait
          (fst (deploy_to_vercel (steady_world (Response (plain_response 200)) 0 0 True)
                  all_enabled ''app'' []))"
  by (simp add: fan_out_run)

text \<open>
  C6, amended. No request carries a bound on the wait. This holds at each of the
  eleven places where the source calls \<^verbatim>\<open>requests\<close>: the default branch, the creation
  of a repository, the creation and the merge of a pull request, the three adapters,
  the content listing, the workflow runs, the repository list and the files of a pull
  request; hence also for the fan-out, the sequencer, the planner and a batch. A
  transport error, which is how a timeout of the library would surface, becomes the
  result \<open>False\<close> in the Vercel and Netlify adapters.
\<close>

theorem requests_carry_no_timeout:
  "list_all unbounded_wait (fst (get_default_branch w r n h))
   \<and> list_all unbounded_wait (fst (create_repository w r n h))
   \<and> list_all unbounded_wait (fst (create_pull_request w r n h))
   \<and> list_all unbounded_wait (fst (merge_pull_request w r n k h))
   \<and> list_all unbounded_wait (fst (deploy_to_vercel w r n h))
   \<and> list_all unbounded_wait (fst (deploy_to_render w r sid h))
   \<and> list_all unbounded_wait (fst (deploy_to_netlify w r h))
   \<and> list_all unbounded_wait (fst (analyze_repository w r n h))
   \<and> list_all unbounded_wait (fst (check_deployment_status w r n h))
   \<and> list_all unbounded_wait (fst (health_check_all_repos w r h))
   \<and> list_all unbounded_wait (fst (auto_pr_review w r n k h))
   \<and> list_all unbounded_wait (fst (trigger_all_deployments w r n h))
   \<and> list_all unbounded_wait (fst (auto_workflow_update_and_deploy w r n fs h))
   \<and> list_all unbounded_wait (fst (auto_improve_repository w r n h))
   \<and> list_all unbounded_wait (fst (batch_repository_operation w r repos op fs h))
   \<and> ((\<forall>rq. http w h rq = TransportError) \<longrightarrow>
         snd (deploy_to_vercel w r n h) = Inr False
         \<and> snd (deploy_to_netlify w r h) = Inr False)"
proof -
  have g: "list_all unbounded_wait (fst (get_default_branch w r n h))"
    by (simp add: get_default_branch_def Let_def split: http_outcome.split)
  have c1: "list_all unbounded_wait (fst (create_repository w r n h))"
    by (simp add: create_repository_def Let_def split: http_outcome.split)
  have c2: "list_all unbounded_wait (fst (create_pull_request w r n h))"
    by (simp add: create_pull_request_def Let_def split: http_outcome.split)
  have c3: "list_all unbounded_wait (fst (merge_pull_request w r n k h))"
    by (simp add: merge_pull_request_def Let_def split: http_outcome.split)
  have v: "list_all unbounded_wait (fst (deploy_to_vercel w r n h))"
    using vercel_shape[of w r n h] by (cases "deploy_to_vercel w r n h") simp
  have rn: "list_all unbounded_wait (fst (deploy_to_render w r sid h))"
    using render_shape[of w r sid h] by (cases "deploy_to_render w r sid h") simp
  have nf: "list_all unbounded_wait (fst (deploy_to_netlify w r h))"
    using netlify_shape[of w r h] by (cases "deploy_to_netlify w r h") simp
  have an: "list_all unbounded_wait (fst (analyze_repository w r n h))"
    by (rule analyze_unbounded)
  have c4: "list_all unbounded_wait (fst (check_deployment_status w r n h))"
    by (simp add: check_deployment_status_def Let_def split: http_outcome.split)
  have c5: "list_all unbounded_wait (fst (health_check_all_repos w r h))"
    by (simp add: health_check_all_repos_def Let_def split: http_outcome.split)
  have pr: "list_all unbounded_wait (fst (auto_pr_review w r n k h))"
    by (simp add: auto_pr_review_def Let_def split: http_outcome.split)
  have fo: "list_all unbounded_wait (fst (trigger_all_deployments w r n h))"
    by (rule fan_out_unbounded)
  have wf: "list_all unbounded_wait (fst (auto_workflow_update_and_deploy w r n fs h))"
    by (rule workflow_unbounded)
  have im: "list_all unbounded_wait (fst (auto_improve_repository w r n h))"
    by (rule improve_unbounded)
  have a: "list_all unbounded_wait (fst (batch_repository_operation w r repos op fs h))"
    by (simp add: batch_repository_operation_def batch_loop_unbounded)
  have t: "(\<forall>rq. http w h rq = TransportError) \<longrightarrow>
         snd (deploy_to_vercel w r n h) = Inr False
         \<and> snd (deploy_to_netlify w r h) = Inr False"
    by (simp add: deploy_to_vercel_def deploy_to_netlify_def Let_def)
  from g c1 c2 c3 v rn nf an c4 c5 pr fo wf im a t show ?thesis by blast
qed

theorem requests_carry_no_timeout_witness:
  "(\<forall>rq. http (steady_world TransportError 0 0 True) [] rq = TransportError)
   \<and> deploy_to_vercel (steady_world TransportError 0 0 True) all_enabled ''app'' [] =
       ([Http \<lparr>meth = POST, url = ''https://v.example/hook'', headers = [], timeout = None\<rparr>,
         Print VercelRequestError], Inr False)
   \<and> deploy_to_netlify (steady_world TransportError 0 0 True) all_enabled [] =
       ([Http \<lparr>meth = POST, url = ''https://n.example/hook'', headers = [], timeout = None\<rparr>,
         Print NetlifyRequestError], Inr False)"
  using requests_carry_no_timeout[of "steady_world TransportError 0 0 True" all_enabled
          "''app''" "[]" 0 "[]" "[]" "[]" "[]"]
  by (simp add: fan_out_run)

end
